theory Spec2Isabelle
  imports Complex_Main "HOL-Library.AList"
begin

section \<open>JavaScript values used by the layer records\<close>

text \<open>
  The layer record classes are JavaScript. An exception is a value of \<open>error\<close>:
  \<open>TypeError\<close> is what the engine raises when a property is read from
  \<open>undefined\<close>, and \<open>Error msg\<close> is an explicit \<open>throw new Error(msg)\<close>.
  A property that may be absent is an \<open>option\<close>, \<open>None\<close> standing for
  \<open>undefined\<close>.
\<close>

datatype error = TypeError | Error string

text \<open>Truthiness of a string-or-undefined value: \<open>undefined\<close> and \<open>''\<close> are falsy.\<close>

fun truthy :: "string option \<Rightarrow> bool" where
  "truthy None = False"
| "truthy (Some s) = (s \<noteq> [])"

text \<open>The operator \<open>a || b\<close> on such values.\<close>

definition js_or :: "string option \<Rightarrow> string option \<Rightarrow> string option" where
  "js_or a b = (if truthy a then a else b)"

section \<open>BasicFC: the off-scale check (basicFC.js)\<close>

record scaleSet =
  minScale :: real
  maxScale :: real

record offScaleResult =
  offScale :: bool
  zoomIn :: bool

text \<open>
  \<open>BasicFC.isOffScale(mapScale)\<close>, as a function of the scale set that
  \<open>getScaleSet()\<close> resolves to (for a BasicFC the \<open>minScale\<close> and \<open>maxScale\<close>
  of the parent's layer). The result object starts as
  \<open>{offScale: false, zoomIn: false}\<close> and is updated by the first branch that
  applies.
\<close>

definition isOffScale :: "scaleSet \<Rightarrow> real \<Rightarrow> offScaleResult" where
  "isOffScale scaleSet mapScale =
     (let result = \<lparr>offScale = False, zoomIn = False\<rparr> in
      if mapScale < maxScale scaleSet \<and> maxScale scaleSet \<noteq> 0
      then result\<lparr>offScale := True, zoomIn := False\<rparr>
      else if mapScale > minScale scaleSet \<and> minScale scaleSet \<noteq> 0
      then result\<lparr>offScale := True, zoomIn := True\<rparr>
      else result)"

text \<open>
  The rule in the words of the specification, for comparison with the code: below
  \<open>maxScale\<close> the fix is to zoom in, above \<open>minScale\<close> the fix is to zoom out.
  The direction is written into the \<open>zoomIn\<close> flag of the result.
\<close>

definition computeScaleVisibility_spec :: "scaleSet \<Rightarrow> real \<Rightarrow> offScaleResult" where
  "computeScaleVisibility_spec scaleSet currentScale =
     (if currentScale < maxScale scaleSet \<and> maxScale scaleSet \<noteq> 0
      then \<lparr>offScale = True, zoomIn = True\<rparr>
      else if currentScale > minScale scaleSet \<and> minScale scaleSet \<noteq> 0
      then \<lparr>offScale = True, zoomIn = False\<rparr>
      else \<lparr>offScale = False, zoomIn = False\<rparr>)"

section \<open>WmsFC: title lookup and legend names\<close>

text \<open>
  A node of the nested \<open>layerInfos\<close> catalog of a WMS layer: the WMS identifier
  is stored in \<open>name\<close>, the title may be missing, and \<open>subLayers\<close> may be missing.
\<close>

datatype wmsLayerInfo =
  WmsLayerInfo (wmsName: string) (wmsTitle: "string option")
    (subLayers: "wmsLayerInfo list option")

text \<open>
  \<open>crawlSubLayers\<close>: the callback of \<open>subLayerInfos.some\<close> runs on each node in
  turn and the loop stops at the first truthy return. \<open>targetEntry\<close>, the value
  returned, is a local of each invocation and is assigned only in the branch where the
  node's own name matches. In the branch for children the callback returns the result
  of the recursive call, which only decides whether \<open>some\<close> stops.
\<close>

fun crawlSubLayers :: "wmsLayerInfo list \<Rightarrow> string \<Rightarrow> wmsLayerInfo option" where
  "crawlSubLayers [] wmsLayerId = None"
| "crawlSubLayers (WmsLayerInfo name title subs # rest) wmsLayerId =
     (if name = wmsLayerId then Some (WmsLayerInfo name title subs)
      else case subs of
        Some subLayerInfos \<Rightarrow>
          (if crawlSubLayers subLayerInfos wmsLayerId \<noteq> None then None
           else crawlSubLayers rest wmsLayerId)
      | None \<Rightarrow> crawlSubLayers rest wmsLayerId)"

definition getWMSLayerTitle :: "wmsLayerInfo list \<Rightarrow> string \<Rightarrow> string" where
  "getWMSLayerTitle layerInfos wmsLayerId =
     (case crawlSubLayers layerInfos wmsLayerId of
        Some match \<Rightarrow> (if truthy (wmsTitle match) then the (wmsTitle match) else [])
      | None \<Rightarrow> [])"

text \<open>
  The lookup in the words of the specification: the nodes of the catalog in pre-order,
  the first one whose name is the identifier, its title or the empty string.
\<close>

fun preorder :: "wmsLayerInfo \<Rightarrow> wmsLayerInfo list" where
  "preorder (WmsLayerInfo n t subs) =
     WmsLayerInfo n t subs #
       (case subs of None \<Rightarrow> [] | Some ls \<Rightarrow> concat (map preorder ls))"

definition preorderTitle_spec :: "wmsLayerInfo list \<Rightarrow> string \<Rightarrow> string" where
  "preorderTitle_spec layerInfos wmsLayerId =
     (case find (\<lambda>n. wmsName n = wmsLayerId) (concat (map preorder layerInfos)) of
        Some match \<Rightarrow> (case wmsTitle match of Some t \<Rightarrow> t | None \<Rightarrow> [])
      | None \<Rightarrow> [])"

text \<open>A layer entry of the WMS configuration: the WMS identifier and an optional name.\<close>

record wmsLayerEntry =
  entryId :: string
  entryName :: "string option"

text \<open>
  The name computed in the callback of \<open>WmsFC.loadSymbology\<close>:
  \<open>entry.name || getWMSLayerTitle(layer, entry.id) || entry.id\<close>.
\<close>

definition legendEntryName :: "wmsLayerInfo list \<Rightarrow> wmsLayerEntry \<Rightarrow> string option" where
  "legendEntryName layerInfos le =
     js_or (js_or (entryName le) (Some (getWMSLayerTitle layerInfos (entryId le))))
       (Some (entryId le))"

text \<open>
  \<open>WmsFC.loadSymbology\<close>: the legend URLs come from the OGC helper (a parameter
  here) and are mapped with their position \<open>idx\<close>; \<open>configLayerEntries[idx]\<close> is
  \<open>undefined\<close> past the end of the entries, and reading \<open>.name\<close> from it throws.
  The result lists the arguments of each \<open>generateWMSSymbology(name, imageUri)\<close>
  request.
\<close>

fun mapLegendUrls ::
  "wmsLayerInfo list \<Rightarrow> wmsLayerEntry list \<Rightarrow> string list \<Rightarrow> nat
     \<Rightarrow> error + (string option \<times> string) list" where
  "mapLegendUrls layerInfos entries [] idx = Inr []"
| "mapLegendUrls layerInfos entries (imageUri # uris) idx =
     (if idx < length entries then
        (case mapLegendUrls layerInfos entries uris (Suc idx) of
           Inl e \<Rightarrow> Inl e
         | Inr items \<Rightarrow> Inr ((legendEntryName layerInfos (entries ! idx), imageUri) # items))
      else Inl TypeError)"

definition loadSymbology ::
  "wmsLayerInfo list \<Rightarrow> wmsLayerEntry list \<Rightarrow> string list
     \<Rightarrow> error + (string option \<times> string) list" where
  "loadSymbology layerInfos configLayerEntries legendUrls =
     mapLegendUrls layerInfos configLayerEntries legendUrls 0"

text \<open>
  The fallback chain in the words of the specification: the server-side title first,
  then the configured name, then the raw identifier.
\<close>

definition legendEntryName_spec :: "wmsLayerInfo list \<Rightarrow> wmsLayerEntry \<Rightarrow> string option" where
  "legendEntryName_spec layerInfos le =
     js_or (js_or (Some (getWMSLayerTitle layerInfos (entryId le))) (entryName le))
       (Some (entryId le))"

section \<open>Sub-layer indices as property keys\<close>

text \<open>
  Sub-layer indices are integers; the tables of a record are JavaScript objects, whose
  keys are strings, so the code converts with \<open>toString()\<close> and back with
  \<open>parseInt\<close>. \<open>toString\<close> is the decimal representation.
\<close>

definition digitChar :: "nat \<Rightarrow> char" where
  "digitChar d = ''0123456789'' ! d"

fun natToString :: "nat \<Rightarrow> string" where
  "natToString n =
     (if n < 10 then [digitChar n] else natToString (n div 10) @ [digitChar (n mod 10)])"

declare natToString.simps [simp del]

definition toString :: "int \<Rightarrow> string" where
  "toString i = (if i < 0 then CHR ''-'' # natToString (nat (- i)) else natToString (nat i))"

text \<open>
  \<open>parseInt\<close> on a key: an optional sign, then the longest prefix of decimal
  digits; \<open>None\<close> is \<open>NaN\<close>, the result when there is no digit. (Leading white
  space and the \<open>0x\<close> prefix, which \<open>parseInt\<close> also accepts, do not occur in
  keys that are integers in string format.)
\<close>

definition isDigit :: "char \<Rightarrow> bool" where
  "isDigit c = (c \<in> set ''0123456789'')"

definition digitValue :: "char \<Rightarrow> nat" where
  "digitValue c = of_char c - 48"

definition parseDigits :: "string \<Rightarrow> int option" where
  "parseDigits s =
     (let ds = takeWhile isDigit s in
      if ds = [] then None
      else Some (int (foldl (\<lambda>acc c. 10 * acc + digitValue c) 0 ds)))"

definition parseInt :: "string \<Rightarrow> int option" where
  "parseInt s =
     (case s of
        [] \<Rightarrow> None
      | c # rest \<Rightarrow>
          if c = CHR ''-'' then map_option uminus (parseDigits rest)
          else if c = CHR ''+'' then parseDigits rest
          else parseDigits s)"

section \<open>DynamicRecord: configuration, sub-configs and the child tree (dynamicRecord.js)\<close>

record layerState =
  opacity :: real
  visibility :: bool
  query :: bool

text \<open>
  An entry of \<open>config.layerEntries\<close>. Every property but the index may be absent.
  The index is a number; \<open>None\<close> is \<open>NaN\<close>, which only \<open>parseInt\<close> of a
  non-numeric key produces.
\<close>

record layerEntry =
  index :: "int option"
  name :: "string option"
  state :: "layerState option"
  outfields :: "string option"
  stateOnly :: "bool option"
  controls :: "string list option"

record subConfig =
  config :: layerEntry
  defaulted :: bool

type_synonym subConfigs = "string \<Rightarrow> subConfig option"

definition numberToString :: "int option \<Rightarrow> string" where
  "numberToString n = (case n of Some i \<Rightarrow> toString i | None \<Rightarrow> ''NaN'')"

text \<open>
  The loop that fills the local table \<open>subConfigs\<close> at the start of \<open>onLoad\<close>:
  each entry is copied (\<open>JSON.parse(JSON.stringify(le))\<close>) under the key
  \<open>le.index.toString()\<close>, marked defaulted exactly when the record was built with
  \<open>configIsComplete\<close>.
\<close>

fun collateSubConfigs :: "bool \<Rightarrow> layerEntry list \<Rightarrow> subConfigs \<Rightarrow> subConfigs" where
  "collateSubConfigs isComplete [] subConfigs = subConfigs"
| "collateSubConfigs isComplete (le # les) subConfigs =
     collateSubConfigs isComplete les
       (subConfigs(numberToString (index le) \<mapsto> \<lparr>config = le, defaulted = isComplete\<rparr>))"

definition dummyState :: layerState where
  "dummyState = \<lparr>opacity = 1, visibility = False, query = False\<rparr>"

text \<open>
  \<open>fetchSubConfig(id, serverName = '')\<close>. It returns the config object of the
  entry and updates the table; the table is returned with the result.
\<close>

definition fetchSubConfig :: "string \<Rightarrow> string \<Rightarrow> subConfigs \<Rightarrow> layerEntry \<times> subConfigs" where
  "fetchSubConfig sid serverName subConfigs =
     (case subConfigs sid of
        Some subC \<Rightarrow>
          if \<not> defaulted subC then
            let c1 = (config subC)\<lparr>state := Some dummyState\<rparr>;
                c2 = (if outfields c1 = None then c1\<lparr>outfields := Some ''*''\<rparr> else c1);
                c3 = (if \<not> truthy (name c2) then c2\<lparr>name := Some serverName\<rparr> else c2)
            in (c3, subConfigs(sid \<mapsto> \<lparr>config = c3, defaulted = True\<rparr>))
          else (config subC, subConfigs)
      | None \<Rightarrow>
          let newConfig = \<lparr>index = parseInt sid, name = Some serverName,
                state = Some dummyState, outfields = Some ''*'', stateOnly = Some True,
                controls = None\<rparr>
          in (newConfig, subConfigs(sid \<mapsto> \<lparr>config = newConfig, defaulted = True\<rparr>)))"

text \<open>
  Defaulting in the words of the specification, for comparison with the code: each of
  name, outfields and state is filled only when it is missing.
\<close>

definition defaultEntry_spec :: "string \<Rightarrow> layerEntry \<Rightarrow> layerEntry" where
  "defaultEntry_spec serverName c =
     c\<lparr>name := (if name c = None then Some serverName else name c),
       outfields := (if outfields c = None then Some ''*'' else outfields c),
       state := (if state c = None then Some dummyState else state c)\<rparr>"

text \<open>A run of calls of \<open>fetchSubConfig\<close>, each with its key and server name.\<close>

fun fetchMany :: "(string \<times> string) list \<Rightarrow> subConfigs \<Rightarrow> subConfigs" where
  "fetchMany [] subConfigs = subConfigs"
| "fetchMany ((sid, serverName) # calls) subConfigs =
     fetchMany calls (snd (fetchSubConfig sid serverName subConfigs))"

section \<open>Feature classes and the proxy interface\<close>

text \<open>
  Objects that are shared and mutated live in a store: a list of cells, the address of
  an object being its position. Allocation appends a cell, so an address is never
  reused and a fresh address is the length of the store.
\<close>

definition alloc :: "'a list \<Rightarrow> 'a \<Rightarrow> nat \<times> 'a list" where
  "alloc heap obj = (length heap, heap @ [obj])"

datatype fcClass = PlaceholderClass | AttribClass | DynamicClass

text \<open>
  Modelled from the spec: the classes \<open>PlaceholderFC\<close>, \<open>AttribFC\<close> and
  \<open>DynamicFC\<close> (placeholderFC.js, attribFC.js and dynamicFC.js are not in src/). A
  placeholder is a data-less stand-in that carries the name it was given. The attributed
  classes derive from \<open>BasicFC\<close>, whose constructor is in src/: it takes the name
  from \<open>config.name || ''\<close>, stores the index, and reads \<open>config.state.query\<close>,
  which throws when the config has no state. The fields set later by the asynchronous
  callbacks of the records start undefined.
\<close>

record featClass =
  fcClass :: fcClass
  fcName :: "string option"
  fcIdx :: "string option"
  queryable :: "bool option"
  nameField :: "string option"
  layerType :: "string option"
  featureCount :: "int option"

type_synonym layerPackage = nat

definition newPlaceholderFC :: "string option \<Rightarrow> featClass" where
  "newPlaceholderFC nm =
     \<lparr>fcClass = PlaceholderClass, fcName = nm, fcIdx = None, queryable = None,
      nameField = None, layerType = None, featureCount = None\<rparr>"

definition newBasicFC ::
  "fcClass \<Rightarrow> string option \<Rightarrow> string option \<Rightarrow> layerState option \<Rightarrow> error + featClass" where
  "newBasicFC cls idx configName configState =
     (case configState of
        None \<Rightarrow> Inl TypeError
      | Some st \<Rightarrow>
          Inr \<lparr>fcClass = cls, fcName = js_or configName (Some []), fcIdx = idx,
               queryable = Some (query st), nameField = None, layerType = None,
               featureCount = None\<rparr>)"

definition newDynamicFC ::
  "string \<Rightarrow> layerPackage option \<Rightarrow> layerEntry \<Rightarrow> error + featClass" where
  "newDynamicFC idx layerPackage cfg = newBasicFC DynamicClass (Some idx) (name cfg) (state cfg)"

text \<open>
  \<open>LayerInterface\<close> (layerInterface.js). Every property and method of the
  interface starts as a stub that throws; a conversion replaces some of them, one by
  one, by the implementation of its flavour. \<open>bindings\<close> records, for each member,
  which implementation is installed.
\<close>

datatype member =
  Symbology | Name | LayerType | GeometryType | FeatureCount | Extent | State
  | Visibility | Opacity | Query | Snapshot | FormattedAttributes
  | SetVisibility | SetOpacity | SetQuery | SetSnapshot | ZoomToBoundary

datatype binding = IAmError | Standard | DynamicLeaf

record layerInterface =
  source :: "nat option"
  isPlaceholder :: bool
  bindings :: "member \<Rightarrow> binding"

definition newLayerInterface :: "nat option \<Rightarrow> layerInterface" where
  "newLayerInterface src =
     \<lparr>source = src, isPlaceholder = True, bindings = (\<lambda>m. IAmError)\<rparr>"

definition updateSource :: "layerInterface \<Rightarrow> nat \<Rightarrow> layerInterface" where
  "updateSource this newSource = this\<lparr>source := Some newSource\<rparr>"

definition convertToPlaceholder :: "layerInterface \<Rightarrow> nat \<Rightarrow> layerInterface" where
  "convertToPlaceholder this placeholderFC =
     this\<lparr>source := Some placeholderFC, isPlaceholder := True,
          bindings := (bindings this)
            (Symbology := Standard, Name := Standard, State := Standard,
             LayerType := Standard)\<rparr>"

definition convertToDynamicLeaf :: "layerInterface \<Rightarrow> nat \<Rightarrow> layerInterface" where
  "convertToDynamicLeaf this dynamicFC =
     this\<lparr>source := Some dynamicFC, isPlaceholder := False,
          bindings := (bindings this)
            (Symbology := DynamicLeaf, State := DynamicLeaf, Name := DynamicLeaf,
             Visibility := DynamicLeaf, Opacity := DynamicLeaf, Query := DynamicLeaf,
             FormattedAttributes := DynamicLeaf, GeometryType := DynamicLeaf,
             LayerType := DynamicLeaf, FeatureCount := DynamicLeaf, Extent := DynamicLeaf,
             SetVisibility := DynamicLeaf, SetOpacity := DynamicLeaf,
             SetQuery := DynamicLeaf, ZoomToBoundary := DynamicLeaf)\<rparr>"

section \<open>DynamicRecord: the record and its load handler\<close>

datatype treeNode =
  TreeGroup (entryIndex: int) (groupName: "string option") (childs: "treeNode list")
  | TreeLeaf (entryIndex: int)

text \<open>
  The fields of a \<open>DynamicRecord\<close> that the modelled methods use, with the two
  stores for the proxies and the feature classes. \<open>_proxies\<close> maps a key to the
  address of a proxy, \<open>_featClasses\<close> a key to the address of a feature class (an
  association list, since \<open>onLoad\<close> enumerates its keys), \<open>_childTree\<close> is
  undefined until \<open>onLoad\<close> assigns it. \<open>setVisibleLayersCalls\<close> logs the
  argument of every \<open>this._layer.setVisibleLayers\<close> call.
\<close>

record dynamicRecord =
  configIsComplete :: bool
  layerEntries :: "layerEntry list"
  proxies :: "string \<Rightarrow> nat option"
  proxyHeap :: "layerInterface list"
  fcHeap :: "featClass list"
  featClasses :: "(string \<times> nat) list"
  childTree :: "treeNode list option"
  isTrueDynamic :: bool
  setVisibleLayersCalls :: "int option list list"

text \<open>
  Modelled from the spec: the base constructor (attribRecord.js and layerRecord.js are not
  in src/) leaves the feature-class table empty, feature classes being created by the
  load handler. The rest is the constructor of \<open>DynamicRecord\<close>.
\<close>

definition newDynamicRecord :: "layerEntry list \<Rightarrow> bool \<Rightarrow> dynamicRecord" where
  "newDynamicRecord configLayerEntries isComplete =
     \<lparr>configIsComplete = isComplete, layerEntries = configLayerEntries,
      proxies = Map.empty, proxyHeap = [], fcHeap = [], featClasses = [],
      childTree = None, isTrueDynamic = False, setVisibleLayersCalls = []\<rparr>"

definition getChildProxy :: "int \<Rightarrow> dynamicRecord \<Rightarrow> nat \<times> dynamicRecord" where
  "getChildProxy featureIdx this =
     (let strIdx = toString featureIdx in
      case proxies this strIdx of
        Some p \<Rightarrow> (p, this)
      | None \<Rightarrow>
          let (pfc, fcs) = alloc (fcHeap this) (newPlaceholderFC (Some []));
              tProxy = convertToPlaceholder (newLayerInterface (Some pfc)) pfc;
              (p, prs) = alloc (proxyHeap this) tProxy
          in (p, this\<lparr>fcHeap := fcs, proxyHeap := prs,
                       proxies := (proxies this)(strIdx \<mapsto> p)\<rparr>))"

text \<open>Proxies requested one after the other, as a structured legend does before the load.\<close>

fun requestProxies :: "int list \<Rightarrow> dynamicRecord \<Rightarrow> dynamicRecord" where
  "requestProxies [] this = this"
| "requestProxies (featureIdx # rest) this =
     requestProxies rest (snd (getChildProxy featureIdx this))"

text \<open>The sub-layer metadata of the remote layer.\<close>

record dynamicLayerInfo =
  infoId :: int
  infoName :: string
  subLayerIds :: "int list option"

text \<open>
  The remote layer at load time. \<open>layerInfos\<close> is an array read by position
  (\<open>layerInfos[slid]\<close>): a partial map, \<open>None\<close> where the read gives
  \<open>undefined\<close>.
\<close>

record esriLayer =
  layerInfos :: "int \<Rightarrow> dynamicLayerInfo option"
  supportsDynamicLayers :: bool

definition isGroup :: "dynamicLayerInfo \<Rightarrow> bool" where
  "isGroup layerInfo = (case subLayerIds layerInfo of Some ids \<Rightarrow> ids \<noteq> [] | None \<Rightarrow> False)"

text \<open>
  The leaf branch of \<open>processLayerInfo\<close>: a new placeholder named after the
  sub-config, given to the proxy already registered under the key or to a new one.
\<close>

definition processLeaf :: "string \<Rightarrow> layerEntry \<Rightarrow> dynamicRecord \<Rightarrow> dynamicRecord" where
  "processLeaf sId subC this =
     (let (pfc, fcs) = alloc (fcHeap this) (newPlaceholderFC (name subC)) in
      case proxies this sId of
        Some p \<Rightarrow>
          this\<lparr>fcHeap := fcs,
               proxyHeap := (proxyHeap this)[p := updateSource (proxyHeap this ! p) pfc]\<rparr>
      | None \<Rightarrow>
          let leafProxy = convertToPlaceholder (newLayerInterface None) pfc;
              (p, prs) = alloc (proxyHeap this) leafProxy
          in this\<lparr>fcHeap := fcs, proxyHeap := prs,
                  proxies := (proxies this)(sId \<mapsto> p)\<rparr>)"

text \<open>
  \<open>processLayerInfo(layerInfo, treeArray)\<close> and the \<open>forEach\<close> over the
  sub-layer ids of a group. The recursion follows the ids the server reports, which
  nothing forces to be acyclic: \<open>fuel\<close> bounds the nesting depth and \<open>None\<close> is
  a run that needs more. Otherwise the result is the exception thrown, if any (reading
  \<open>layerInfo.id\<close> of an undefined \<open>layerInfo\<close>), the tree array, the sub-config
  table and the record, as they are when the call returns or throws.
\<close>

fun processLayerInfo ::
  "nat \<Rightarrow> (int \<Rightarrow> dynamicLayerInfo option) \<Rightarrow> dynamicLayerInfo option \<Rightarrow> treeNode list
     \<Rightarrow> subConfigs \<Rightarrow> dynamicRecord
     \<Rightarrow> (error option \<times> treeNode list \<times> subConfigs \<times> dynamicRecord) option"
and processSubLayerIds ::
  "nat \<Rightarrow> (int \<Rightarrow> dynamicLayerInfo option) \<Rightarrow> int list \<Rightarrow> treeNode list
     \<Rightarrow> subConfigs \<Rightarrow> dynamicRecord
     \<Rightarrow> (error option \<times> treeNode list \<times> subConfigs \<times> dynamicRecord) option"
where
  "processLayerInfo fuel infos None treeArray subConfigs this =
     Some (Some TypeError, treeArray, subConfigs, this)"
| "processLayerInfo 0 infos (Some layerInfo) treeArray subConfigs this = None"
| "processLayerInfo (Suc fuel) infos (Some layerInfo) treeArray subConfigs this =
     (let sId = toString (infoId layerInfo);
          (subC, subConfigs1) = fetchSubConfig sId (infoName layerInfo) subConfigs
      in if isGroup layerInfo then
           (case processSubLayerIds fuel infos (the (subLayerIds layerInfo)) [] subConfigs1 this of
              None \<Rightarrow> None
            | Some (e, kids, subConfigs2, this2) \<Rightarrow>
                Some (e, treeArray @ [TreeGroup (infoId layerInfo) (name subC) kids],
                      subConfigs2, this2))
         else
           Some (None, treeArray @ [TreeLeaf (infoId layerInfo)], subConfigs1,
                 processLeaf sId subC this))"
| "processSubLayerIds fuel infos [] kids subConfigs this =
     Some (None, kids, subConfigs, this)"
| "processSubLayerIds fuel infos (slid # rest) kids subConfigs this =
     (case processLayerInfo fuel infos (infos slid) kids subConfigs this of
        None \<Rightarrow> None
      | Some (Some e, kids1, subConfigs1, this1) \<Rightarrow> Some (Some e, kids1, subConfigs1, this1)
      | Some (None, kids1, subConfigs1, this1) \<Rightarrow>
          processSubLayerIds fuel infos rest kids1 subConfigs1 this1)"

text \<open>
  The loop over \<open>config.layerEntries\<close> that builds \<open>_childTree\<close>: entries with
  a truthy \<open>stateOnly\<close> are skipped, the others start a crawl at
  \<open>layerInfos[le.index]\<close>.
\<close>

definition entryLayerInfo ::
  "(int \<Rightarrow> dynamicLayerInfo option) \<Rightarrow> layerEntry \<Rightarrow> dynamicLayerInfo option" where
  "entryLayerInfo infos le = (case index le of Some i \<Rightarrow> infos i | None \<Rightarrow> None)"

fun processEntries ::
  "nat \<Rightarrow> (int \<Rightarrow> dynamicLayerInfo option) \<Rightarrow> layerEntry list \<Rightarrow> treeNode list
     \<Rightarrow> subConfigs \<Rightarrow> dynamicRecord
     \<Rightarrow> (error option \<times> treeNode list \<times> subConfigs \<times> dynamicRecord) option" where
  "processEntries fuel infos [] tree subConfigs this = Some (None, tree, subConfigs, this)"
| "processEntries fuel infos (le # les) tree subConfigs this =
     (if stateOnly le = Some True then processEntries fuel infos les tree subConfigs this
      else
        case processLayerInfo fuel infos (entryLayerInfo infos le) tree subConfigs this of
          None \<Rightarrow> None
        | Some (Some e, tree1, subConfigs1, this1) \<Rightarrow> Some (Some e, tree1, subConfigs1, this1)
        | Some (None, tree1, subConfigs1, this1) \<Rightarrow>
            processEntries fuel infos les tree1 subConfigs1 this1)"

text \<open>
  The attribute bundle of the attribute loader (a collaborator, a parameter here): the
  indexes the remote layer reports, as strings, and a package for each.
\<close>

record attributeBundle =
  indexes :: "string list"
  packages :: "string \<Rightarrow> layerPackage option"

text \<open>
  The loop over \<open>attributeBundle.indexes\<close>. An index with a defaulted sub-config
  gets a \<open>DynamicFC\<close>; \<open>storeFeatClass\<close> is the rest of the round, once the
  object is constructed: it is stored in \<open>_featClasses\<close>, and the proxy registered
  under the index, if any, is converted to a dynamic leaf reading from it. The
  constructor may throw, which ends the loop. The rest of the round (the symbology
  load of the new class and the promises for its layer data and feature count) belongs
  to collaborators and changes none of the fields modelled before the handler ends.
\<close>

definition storeFeatClass :: "string \<Rightarrow> featClass \<Rightarrow> dynamicRecord \<Rightarrow> dynamicRecord" where
  "storeFeatClass idx obj this =
     (let (dFC, fcs) = alloc (fcHeap this) obj;
          this1 = this\<lparr>fcHeap := fcs, featClasses := AList.update idx dFC (featClasses this)\<rparr>
      in case proxies this1 idx of
           Some leafProxy \<Rightarrow>
             this1\<lparr>proxyHeap := (proxyHeap this1)
               [leafProxy := convertToDynamicLeaf (proxyHeap this1 ! leafProxy) dFC]\<rparr>
         | None \<Rightarrow> this1)"

fun createFeatClasses ::
  "string list \<Rightarrow> attributeBundle \<Rightarrow> subConfigs \<Rightarrow> dynamicRecord
     \<Rightarrow> error option \<times> dynamicRecord" where
  "createFeatClasses [] bundle subConfigs this = (None, this)"
| "createFeatClasses (idx # rest) bundle subConfigs this =
     (case subConfigs idx of
        None \<Rightarrow> createFeatClasses rest bundle subConfigs this
      | Some subC \<Rightarrow>
          if defaulted subC then
            (case newDynamicFC idx (packages bundle idx) (config subC) of
               Inl e \<Rightarrow> (Some e, this)
             | Inr obj \<Rightarrow> createFeatClasses rest bundle subConfigs (storeFeatClass idx obj this))
          else createFeatClasses rest bundle subConfigs this)"

text \<open>
  The callback scheduled for the feature count of a created feature class:
  \<open>dFC.featureCount = fc\<close>, on the object the closure holds.
\<close>

definition onFeatureCount :: "nat \<Rightarrow> int \<Rightarrow> dynamicRecord \<Rightarrow> dynamicRecord" where
  "onFeatureCount dFC fc this =
     this\<lparr>fcHeap := (fcHeap this)[dFC := (fcHeap this ! dFC)\<lparr>featureCount := Some fc\<rparr>]\<rparr>"

text \<open>
  The filter of the initial visibility: for each key of \<open>_featClasses\<close> the callback
  evaluates \<open>fetchSubConfig(fcId).config.state.visibility\<close>. \<open>fetchSubConfig\<close>
  returns the config object itself, a layer entry, and no layer entry has a property
  \<open>config\<close>: \<open>entryConfigProperty\<close> is that read, always \<open>undefined\<close>, and
  reading \<open>.state\<close> from it throws. The keys are taken in the order of the table;
  the order in which \<open>Object.keys\<close> lists them does not show, since the callback
  throws on the first key it is given, whichever it is.
\<close>

definition entryConfigProperty :: "layerEntry \<Rightarrow> layerEntry option" where
  "entryConfigProperty c = None"

fun filterVisible :: "string list \<Rightarrow> subConfigs \<Rightarrow> error + string list" where
  "filterVisible [] subConfigs = Inr []"
| "filterVisible (fcId # rest) subConfigs =
     (let (c, subConfigs1) = fetchSubConfig fcId [] subConfigs in
      case entryConfigProperty c of
        None \<Rightarrow> Inl TypeError
      | Some c' \<Rightarrow>
          (case state c' of
             None \<Rightarrow> Inl TypeError
           | Some st \<Rightarrow>
               (case filterVisible rest subConfigs1 of
                  Inl e \<Rightarrow> Inl e
                | Inr keep \<Rightarrow> Inr (if visibility st then fcId # keep else keep))))"

definition setInitialVisibility ::
  "subConfigs \<Rightarrow> dynamicRecord \<Rightarrow> error option \<times> dynamicRecord" where
  "setInitialVisibility subConfigs this =
     (if configIsComplete this then
        (case filterVisible (map fst (featClasses this)) subConfigs of
           Inl e \<Rightarrow> (Some e, this)
         | Inr keep \<Rightarrow>
             let initVis = map parseInt keep;
                 initVis1 = (if length initVis = 0 then initVis @ [Some (- 1)] else initVis)
             in (None, this\<lparr>setVisibleLayersCalls := setVisibleLayersCalls this @ [initVis1]\<rparr>))
      else (None, this))"

text \<open>
  \<open>DynamicRecord.onLoad\<close>, in two definitions. (\<open>super.onLoad()\<close> is not
  in src/ and touches none of the fields modelled.) \<open>onLoadTree\<close> is the handler up
  to the end of the loop that builds \<open>_childTree\<close>: it returns the tree array, the
  local table \<open>subConfigs\<close> and the record. \<open>onLoad\<close> continues with the
  feature classes and the initial visibility. An exception ends the handler and leaves
  the record as it is at that point, with the tree array built so far in
  \<open>_childTree\<close>; \<open>None\<close> is a crawl that needs more fuel.
\<close>

definition onLoadTree ::
  "nat \<Rightarrow> esriLayer \<Rightarrow> dynamicRecord
     \<Rightarrow> (error option \<times> treeNode list \<times> subConfigs \<times> dynamicRecord) option" where
  "onLoadTree fuel layer this =
     (let this1 = this\<lparr>isTrueDynamic := supportsDynamicLayers layer\<rparr>;
          subConfigs = collateSubConfigs (configIsComplete this1) (layerEntries this1) Map.empty;
          this2 = this1\<lparr>childTree := Some []\<rparr>
      in processEntries fuel (layerInfos layer) (layerEntries this2) [] subConfigs this2)"

definition onLoad ::
  "nat \<Rightarrow> esriLayer \<Rightarrow> attributeBundle \<Rightarrow> dynamicRecord \<Rightarrow> (error option \<times> dynamicRecord) option" where
  "onLoad fuel layer bundle this =
     (case onLoadTree fuel layer this of
        None \<Rightarrow> None
      | Some (Some e, tree, subConfigs1, this3) \<Rightarrow> Some (Some e, this3\<lparr>childTree := Some tree\<rparr>)
      | Some (None, tree, subConfigs1, this3) \<Rightarrow>
          (case createFeatClasses (indexes bundle) bundle subConfigs1
                  (this3\<lparr>childTree := Some tree\<rparr>) of
             (Some e, this4) \<Rightarrow> Some (Some e, this4)
           | (None, this4) \<Rightarrow> Some (setInitialVisibility subConfigs1 this4)))"

definition getChildTree :: "dynamicRecord \<Rightarrow> error + treeNode list" where
  "getChildTree this =
     (case childTree this of
        Some tree \<Rightarrow> Inr tree
      | None \<Rightarrow> Inl (Error ''Called getChildTree before layer is loaded''))"

text \<open>
  Reads through a proxy. A member still bound to the stub throws
  \<open>Call not supported.\<close>; the getters installed by a conversion read the property
  from \<open>this._source\<close>, which throws when the source is \<open>null\<close>.
\<close>

definition sourceFC :: "dynamicRecord \<Rightarrow> layerInterface \<Rightarrow> error + featClass" where
  "sourceFC this proxy =
     (case source proxy of None \<Rightarrow> Inl TypeError | Some fc \<Rightarrow> Inr (fcHeap this ! fc))"

definition proxyIsPlaceholder :: "dynamicRecord \<Rightarrow> nat \<Rightarrow> bool" where
  "proxyIsPlaceholder this p = isPlaceholder (proxyHeap this ! p)"

definition proxyName :: "dynamicRecord \<Rightarrow> nat \<Rightarrow> error + string option" where
  "proxyName this p =
     (case bindings (proxyHeap this ! p) Name of
        IAmError \<Rightarrow> Inl (Error ''Call not supported.'')
      | Standard \<Rightarrow> map_sum (\<lambda>e. e) fcName (sourceFC this (proxyHeap this ! p))
      | DynamicLeaf \<Rightarrow> map_sum (\<lambda>e. e) fcName (sourceFC this (proxyHeap this ! p)))"

definition proxyLayerType :: "dynamicRecord \<Rightarrow> nat \<Rightarrow> error + string option" where
  "proxyLayerType this p =
     (case bindings (proxyHeap this ! p) LayerType of
        IAmError \<Rightarrow> Inl (Error ''Call not supported.'')
      | Standard \<Rightarrow> map_sum (\<lambda>e. e) layerType (sourceFC this (proxyHeap this ! p))
      | DynamicLeaf \<Rightarrow> map_sum (\<lambda>e. e) layerType (sourceFC this (proxyHeap this ! p)))"

text \<open>
  \<open>standardGetFeatureCount\<close> returns \<open>undefined\<close> without reading the source;
  \<open>standardGetQuery\<close> calls \<open>isQueryable()\<close>, a method of layer records that no
  feature class has, so on a feature-class source the call throws.
\<close>

definition proxyFeatureCount :: "dynamicRecord \<Rightarrow> nat \<Rightarrow> error + int option" where
  "proxyFeatureCount this p =
     (case bindings (proxyHeap this ! p) FeatureCount of
        IAmError \<Rightarrow> Inl (Error ''Call not supported.'')
      | Standard \<Rightarrow> Inr None
      | DynamicLeaf \<Rightarrow> map_sum (\<lambda>e. e) featureCount (sourceFC this (proxyHeap this ! p)))"

definition proxyQuery :: "dynamicRecord \<Rightarrow> nat \<Rightarrow> error + bool option" where
  "proxyQuery this p =
     (case bindings (proxyHeap this ! p) Query of
        IAmError \<Rightarrow> Inl (Error ''Call not supported.'')
      | Standard \<Rightarrow> Inl TypeError
      | DynamicLeaf \<Rightarrow> map_sum (\<lambda>e. e) queryable (sourceFC this (proxyHeap this ! p)))"

section \<open>The child tree against the server hierarchy\<close>

text \<open>
  The shape the specification gives the child tree: a server node with sub-layer ids
  is mirrored by a group node with the node's index, its resolved name and one mirror
  per sub-layer id, in the server's order; a node without is mirrored by a leaf with
  the node's index.
\<close>

inductive mirrors ::
  "(int \<Rightarrow> dynamicLayerInfo option) \<Rightarrow> (int \<Rightarrow> string option) \<Rightarrow> dynamicLayerInfo
     \<Rightarrow> treeNode \<Rightarrow> bool"
  for infos :: "int \<Rightarrow> dynamicLayerInfo option" and resolved :: "int \<Rightarrow> string option"
where
  mirrorsLeaf: "\<not> isGroup layerInfo \<Longrightarrow> mirrors infos resolved layerInfo (TreeLeaf (infoId layerInfo))"
| mirrorsGroup:
    "isGroup layerInfo \<Longrightarrow> subLayerIds layerInfo = Some ids \<Longrightarrow>
     list_all2 (\<lambda>slid node. \<exists>sub. infos slid = Some sub \<and> mirrors infos resolved sub node) ids kids \<Longrightarrow>
     mirrors infos resolved layerInfo
       (TreeGroup (infoId layerInfo) (resolved (infoId layerInfo)) kids)"

text \<open>The name the sub-config table holds for an index once the load has resolved it.\<close>

definition resolvedName :: "subConfigs \<Rightarrow> int \<Rightarrow> string option" where
  "resolvedName subConfigs i =
     (case subConfigs (toString i) of Some subC \<Rightarrow> name (config subC) | None \<Rightarrow> None)"

text \<open>
  A hierarchy is nested to depth at most \<open>d\<close> below position \<open>i\<close> when every
  position reached from \<open>i\<close> holds a node and the leaves are reached within \<open>d\<close>
  levels.
\<close>

fun nestedWithin :: "nat \<Rightarrow> (int \<Rightarrow> dynamicLayerInfo option) \<Rightarrow> int \<Rightarrow> bool" where
  "nestedWithin 0 infos i = False"
| "nestedWithin (Suc d) infos i =
     (case infos i of
        None \<Rightarrow> False
      | Some layerInfo \<Rightarrow>
          (case subLayerIds layerInfo of
             None \<Rightarrow> True
           | Some ids \<Rightarrow> list_all (nestedWithin d infos) ids))"

definition configuredRoots :: "layerEntry list \<Rightarrow> layerEntry list" where
  "configuredRoots les = filter (\<lambda>le. stateOnly le \<noteq> Some True) les"

section \<open>FeatureRecord\<close>

text \<open>
  The layer configuration of a feature layer, as far as the feature class reads it.
\<close>

record featureConfig =
  configName :: "string option"
  configState :: "layerState option"
  configNameField :: "string option"

text \<open>
  The fields of a \<open>FeatureRecord\<close> that the constructor and the load handler set.
  \<open>_defaultFC\<close> is \<open>undefined\<close> (\<open>None\<close>) when the load handler reads the
  first index of an empty list. A property key is a string: \<open>undefined\<close> used as a
  key is the string \<open>undefined\<close>.
\<close>

record featureRecord =
  recordName :: "string option"
  recordConfig :: featureConfig
  defaultFC :: "string option"
  featClassTable :: "string \<Rightarrow> featClass option"

definition propertyKey :: "string option \<Rightarrow> string" where
  "propertyKey k = (case k of Some s \<Rightarrow> s | None \<Rightarrow> ''undefined'')"

text \<open>
  Modelled from the spec: the base constructor (layerRecord.js is not in src/) stores
  the config, gives the record its name and leaves the feature-class table empty. The
  rest is the constructor of \<open>FeatureRecord\<close>.
\<close>

definition newFeatureRecord :: "string option \<Rightarrow> featureConfig \<Rightarrow> featureRecord" where
  "newFeatureRecord layerName cfg =
     (let this = \<lparr>recordName = layerName, recordConfig = cfg, defaultFC = None,
                  featClassTable = Map.empty\<rparr>;
          this1 = this\<lparr>defaultFC := Some ''0''\<rparr>
      in this1\<lparr>featClassTable := (featClassTable this1)(''0'' \<mapsto> newPlaceholderFC (recordName this1))\<rparr>)"

definition newAttribFC ::
  "string option \<Rightarrow> layerPackage option \<Rightarrow> featureConfig \<Rightarrow> error + featClass" where
  "newAttribFC idx layerPackage cfg =
     newBasicFC AttribClass idx (configName cfg) (configState cfg)"

definition firstIndex :: "string list \<Rightarrow> string option" where
  "firstIndex idxs = (case idxs of [] \<Rightarrow> None | idx # rest \<Rightarrow> Some idx)"

text \<open>
  \<open>FeatureRecord.onLoad\<close>, up to the symbology load and the promises for layer
  data and feature count, which belong to collaborators. The constructor of the feature
  class runs before the record is changed, so an exception there leaves the record as
  it was.
\<close>

definition featureOnLoad :: "attributeBundle \<Rightarrow> featureRecord \<Rightarrow> error option \<times> featureRecord" where
  "featureOnLoad bundle this =
     (let idx = firstIndex (indexes bundle) in
      case newAttribFC idx (packages bundle (propertyKey idx)) (recordConfig this) of
        Inl e \<Rightarrow> (Some e, this)
      | Inr obj \<Rightarrow>
          let aFC = obj\<lparr>nameField := configNameField (recordConfig this)\<rparr>;
              this1 = this\<lparr>defaultFC := idx\<rparr>
          in (None, this1\<lparr>featClassTable := (featClassTable this1)(propertyKey idx \<mapsto> aFC)\<rparr>))"

text \<open>The feature class that a call dispatched through the default index reaches.\<close>

definition defaultFeatClass :: "featureRecord \<Rightarrow> featClass option" where
  "defaultFeatClass this = featClassTable this (propertyKey (defaultFC this))"

text \<open>
  A table extends another when every entry marked defaulted in the first is the same in
  the second.
\<close>

definition frozenExt :: "subConfigs \<Rightarrow> subConfigs \<Rightarrow> bool" where
  "frozenExt a b = (\<forall>k e. a k = Some e \<and> defaulted e \<longrightarrow> b k = Some e)"

text \<open>The load handler run once for each bundle of a list, whatever each run throws.\<close>

fun featureLoads :: "attributeBundle list \<Rightarrow> featureRecord \<Rightarrow> featureRecord" where
  "featureLoads [] this = this"
| "featureLoads (b # rest) this = featureLoads rest (snd (featureOnLoad b this))"

section \<open>Invariants of the proxy table\<close>

text \<open>
  The predicates of the proofs about proxies. A proxy table is well formed when every
  handle it holds is an address of the proxy store and no two keys hold the same
  handle. Before the load every registered proxy is a placeholder reading from a
  placeholder feature class with the empty name, and no feature class has been created.
  After the load every key of the feature-class table holds a \<open>DynamicFC\<close>, and
  the proxy registered under the key, if any, is a dynamic leaf reading from it.
  \<open>proxyStep\<close> relates the record before and after a step that keeps the handle of
  every registered key and leaves the feature-class table alone.
\<close>

definition proxiesWf :: "dynamicRecord \<Rightarrow> bool" where
  "proxiesWf this =
     ((\<forall>k p. proxies this k = Some p \<longrightarrow> p < length (proxyHeap this)) \<and>
      (\<forall>k k' p. proxies this k = Some p \<and> proxies this k' = Some p \<longrightarrow> k = k'))"

definition placeholderProxy :: "dynamicRecord \<Rightarrow> nat \<Rightarrow> bool" where
  "placeholderProxy this p =
     (isPlaceholder (proxyHeap this ! p) \<and>
      (\<exists>r. source (proxyHeap this ! p) = Some r \<and> r < length (fcHeap this) \<and>
           fcHeap this ! r = newPlaceholderFC (Some [])) \<and>
      bindings (proxyHeap this ! p) Name = Standard \<and>
      bindings (proxyHeap this ! p) Query = IAmError \<and>
      bindings (proxyHeap this ! p) FeatureCount = IAmError)"

definition preLoad :: "dynamicRecord \<Rightarrow> bool" where
  "preLoad this =
     (proxiesWf this \<and> featClasses this = [] \<and>
      (\<forall>k p. proxies this k = Some p \<longrightarrow> placeholderProxy this p))"

definition leafProxyOf :: "dynamicRecord \<Rightarrow> nat \<Rightarrow> nat \<Rightarrow> bool" where
  "leafProxyOf this p r =
     (source (proxyHeap this ! p) = Some r \<and> \<not> isPlaceholder (proxyHeap this ! p) \<and>
      bindings (proxyHeap this ! p) Name = DynamicLeaf \<and>
      bindings (proxyHeap this ! p) Query = DynamicLeaf \<and>
      bindings (proxyHeap this ! p) FeatureCount = DynamicLeaf \<and>
      bindings (proxyHeap this ! p) LayerType = DynamicLeaf)"

definition resolvedInv :: "dynamicRecord \<Rightarrow> bool" where
  "resolvedInv this =
     (\<forall>k r. map_of (featClasses this) k = Some r \<longrightarrow>
        r < length (fcHeap this) \<and> fcClass (fcHeap this ! r) = DynamicClass \<and>
        (\<forall>p. proxies this k = Some p \<longrightarrow> leafProxyOf this p r))"

definition proxyStep :: "dynamicRecord \<Rightarrow> dynamicRecord \<Rightarrow> bool" where
  "proxyStep a b =
     ((proxiesWf a \<longrightarrow> proxiesWf b) \<and>
      (\<forall>k p. proxies a k = Some p \<longrightarrow> proxies b k = Some p) \<and>
      featClasses b = featClasses a)"

section \<open>Keys and indices\<close>

text \<open>The key of an integer index parses back to the index.\<close>

lemma digitChar_digit:
  assumes "d < 10"
  shows "isDigit (digitChar d) \<and> digitValue (digitChar d) = d"
proof -
  from assms have "d = 0 \<or> d = 1 \<or> d = 2 \<or> d = 3 \<or> d = 4 \<or> d = 5 \<or> d = 6 \<or> d = 7 \<or> d = 8 \<or> d = 9"
    by arith
  then show ?thesis
    by (elim disjE) (simp_all add: digitChar_def isDigit_def digitValue_def)
qed

lemma natToString_digits:
  "list_all isDigit (natToString n) \<and> natToString n \<noteq> [] \<and>
   foldl (\<lambda>acc c. 10 * acc + digitValue c) 0 (natToString n) = n"
proof (induction n rule: natToString.induct)
  case (1 n)
  show ?case
  proof (cases "n < 10")
    case True
    with digitChar_digit [OF True] show ?thesis
      by (subst (1 2 3) natToString.simps) simp
  next
    case False
    have "n mod 10 < 10" by simp
    from digitChar_digit [OF this] "1.IH" [OF False] False show ?thesis
      by (subst (1 2 3) natToString.simps) simp
  qed
qed

lemma parseDigits_natToString: "parseDigits (natToString n) = Some (int n)"
proof -
  from natToString_digits [of n] have tw: "takeWhile isDigit (natToString n) = natToString n"
    by (simp add: takeWhile_eq_all_conv list_all_iff)
  from natToString_digits [of n] show ?thesis
    unfolding parseDigits_def Let_def tw by simp
qed

lemma parseInt_toString: "parseInt (toString i) = Some i"
proof (cases "i < 0")
  case True
  then show ?thesis
    by (simp add: parseInt_def toString_def parseDigits_natToString)
next
  case False
  obtain c rest where s: "natToString (nat i) = c # rest"
    using natToString_digits [of "nat i"] by (cases "natToString (nat i)") auto
  with natToString_digits [of "nat i"] have "isDigit c" by simp
  then have "c \<noteq> CHR ''-'' \<and> c \<noteq> CHR ''+''" by (auto simp: isDigit_def)
  with False s parseDigits_natToString [of "nat i"] show ?thesis
    by (simp add: parseInt_def toString_def)
qed

section \<open>The off-scale check\<close>

text \<open>
  C2 (as the code has it). For every scale set and map scale: when the map scale is
  below a non-zero \<open>maxScale\<close> the class is off scale and \<open>zoomIn\<close> is false
  (the map is zoomed in too far, the fix is to zoom out); otherwise, when the map scale
  is above a non-zero \<open>minScale\<close>, the class is off scale and \<open>zoomIn\<close> is true
  (the fix is to zoom in); otherwise the class is on scale and both flags are false.
\<close>

theorem isOffScale_rule:
  "(mapScale < maxScale s \<and> maxScale s \<noteq> 0
      \<longrightarrow> isOffScale s mapScale = \<lparr>offScale = True, zoomIn = False\<rparr>) \<and>
   (\<not> (mapScale < maxScale s \<and> maxScale s \<noteq> 0) \<and> mapScale > minScale s \<and> minScale s \<noteq> 0
      \<longrightarrow> isOffScale s mapScale = \<lparr>offScale = True, zoomIn = True\<rparr>) \<and>
   (\<not> (mapScale < maxScale s \<and> maxScale s \<noteq> 0) \<and> \<not> (mapScale > minScale s \<and> minScale s \<noteq> 0)
      \<longrightarrow> isOffScale s mapScale = \<lparr>offScale = False, zoomIn = False\<rparr>)"
  by (auto simp: isOffScale_def Let_def)

text \<open>The three scales of the specification's example, by the rule.\<close>

theorem isOffScale_rule_witness:
  "isOffScale \<lparr>minScale = 0, maxScale = 5000\<rparr> 4000 = \<lparr>offScale = True, zoomIn = False\<rparr> \<and>
   isOffScale \<lparr>minScale = 0, maxScale = 5000\<rparr> 6000 = \<lparr>offScale = False, zoomIn = False\<rparr> \<and>
   isOffScale \<lparr>minScale = 10000, maxScale = 0\<rparr> 20000 = \<lparr>offScale = True, zoomIn = True\<rparr>"
  using isOffScale_rule [of 4000 "\<lparr>minScale = 0, maxScale = 5000\<rparr>"]
    isOffScale_rule [of 6000 "\<lparr>minScale = 0, maxScale = 5000\<rparr>"]
    isOffScale_rule [of 20000 "\<lparr>minScale = 10000, maxScale = 0\<rparr>"]
  by simp

text \<open>
  C2 as stated fails: with \<open>minScale = 10000\<close> and \<open>maxScale = 0\<close> at scale
  20000 the code sets \<open>zoomIn\<close>, where the stated rule has zoom out to fix; with
  \<open>minScale = 0\<close> and \<open>maxScale = 5000\<close> at scale 4000 the code clears
  \<open>zoomIn\<close>, where the stated rule has zoom in to fix.
\<close>

theorem isOffScale_counterexample:
  "isOffScale \<lparr>minScale = 10000, maxScale = 0\<rparr> 20000 = \<lparr>offScale = True, zoomIn = True\<rparr> \<and>
   computeScaleVisibility_spec \<lparr>minScale = 10000, maxScale = 0\<rparr> 20000
     = \<lparr>offScale = True, zoomIn = False\<rparr> \<and>
   isOffScale \<lparr>minScale = 0, maxScale = 5000\<rparr> 4000 = \<lparr>offScale = True, zoomIn = False\<rparr> \<and>
   computeScaleVisibility_spec \<lparr>minScale = 0, maxScale = 5000\<rparr> 4000
     = \<lparr>offScale = True, zoomIn = True\<rparr>"
  by (simp add: isOffScale_def computeScaleVisibility_spec_def Let_def)

section \<open>The WMS title lookup\<close>

text \<open>
  Whatever the crawl returns is a node of the list it was given, never a node below:
  a match found among the children stops the loop without being stored.
\<close>

lemma crawlSubLayers_top_level:
  "crawlSubLayers catalog wmsLayerId = Some m \<Longrightarrow>
   m \<in> set catalog \<and> wmsName m = wmsLayerId"
  by (induction catalog wmsLayerId rule: crawlSubLayers.induct)
     (auto split: if_splits option.splits)

text \<open>
  C3 at a nested match. The catalog has one top-level node \<open>a\<close> with one child
  \<open>b\<close> titled \<open>B\<close>. The first node in pre-order named \<open>b\<close> is that child,
  and the lookup of the specification gives its title; the code returns the empty
  string.
\<close>

theorem getWMSLayerTitle_nested_match:
  "getWMSLayerTitle
     [WmsLayerInfo ''a'' (Some ''A'') (Some [WmsLayerInfo ''b'' (Some ''B'') None])] ''b'' = [] \<and>
   preorderTitle_spec
     [WmsLayerInfo ''a'' (Some ''A'') (Some [WmsLayerInfo ''b'' (Some ''B'') None])] ''b'' = ''B''"
  by (simp add: getWMSLayerTitle_def preorderTitle_spec_def)

section \<open>The legend names of a WMS layer\<close>

lemma mapLegendUrls_names:
  "mapLegendUrls catalog entries uris idx = Inr items \<Longrightarrow>
   map fst items = map (legendEntryName catalog) (take (length uris) (drop idx entries)) \<and>
   map snd items = uris"
proof (induction uris arbitrary: idx items)
  case Nil
  then show ?case by simp
next
  case (Cons u us)
  from Cons.prems have lt: "idx < length entries" by (auto split: if_splits)
  from Cons.prems lt obtain r where r: "mapLegendUrls catalog entries us (Suc idx) = Inr r"
    and items: "items = (legendEntryName catalog (entries ! idx), u) # r"
    by (auto split: sum.splits)
  from Cons.IH [OF r] lt items show ?case
    by (simp add: Cons_nth_drop_Suc [symmetric])
qed

text \<open>
  C4 (as the code has it). The name of a legend entry is the configured name when there
  is one (a non-empty string), whatever the server says; without a configured name it
  is the title found on the server; without either it is the raw configured
  identifier. \<open>loadSymbology\<close> names every entry it has a legend URL for in this way.
\<close>

theorem legendEntryName_chain:
  "(truthy (entryName le) \<longrightarrow> legendEntryName catalog le = entryName le) \<and>
   (\<not> truthy (entryName le) \<and> getWMSLayerTitle catalog (entryId le) \<noteq> []
      \<longrightarrow> legendEntryName catalog le = Some (getWMSLayerTitle catalog (entryId le))) \<and>
   (\<not> truthy (entryName le) \<and> getWMSLayerTitle catalog (entryId le) = []
      \<longrightarrow> legendEntryName catalog le = Some (entryId le)) \<and>
   (loadSymbology catalog entries uris = Inr items
      \<longrightarrow> map fst items = map (legendEntryName catalog) (take (length uris) entries))"
  using mapLegendUrls_names [of catalog entries uris 0 items]
  by (simp add: legendEntryName_def js_or_def loadSymbology_def)

theorem legendEntryName_chain_witness:
  "legendEntryName [WmsLayerInfo ''x'' (Some ''Srv'') None]
     \<lparr>entryId = ''x'', entryName = Some ''Cfg''\<rparr> = Some ''Cfg'' \<and>
   legendEntryName [WmsLayerInfo ''x'' (Some ''Srv'') None]
     \<lparr>entryId = ''x'', entryName = None\<rparr> = Some ''Srv'' \<and>
   legendEntryName [WmsLayerInfo ''x'' None None]
     \<lparr>entryId = ''x'', entryName = Some []\<rparr> = Some ''x'' \<and>
   loadSymbology [WmsLayerInfo ''x'' (Some ''Srv'') None]
     [\<lparr>entryId = ''x'', entryName = None\<rparr>] [''u''] = Inr [(Some ''Srv'', ''u'')]"
  using legendEntryName_chain [of "\<lparr>entryId = ''x'', entryName = Some ''Cfg''\<rparr>"
      "[WmsLayerInfo ''x'' (Some ''Srv'') None]" "[]" "[]" "[]"]
    legendEntryName_chain [of "\<lparr>entryId = ''x'', entryName = None\<rparr>"
      "[WmsLayerInfo ''x'' (Some ''Srv'') None]" "[\<lparr>entryId = ''x'', entryName = None\<rparr>]" "[''u'']"
      "[(Some ''Srv'', ''u'')]"]
    legendEntryName_chain [of "\<lparr>entryId = ''x'', entryName = Some []\<rparr>"
      "[WmsLayerInfo ''x'' None None]" "[]" "[]" "[]"]
  by (simp add: getWMSLayerTitle_def loadSymbology_def legendEntryName_def js_or_def)

text \<open>
  C4 as stated fails: the server has the title \<open>Srv\<close> for the identifier \<open>x\<close>
  and the entry is configured with the name \<open>Cfg\<close>; the code names the entry
  \<open>Cfg\<close>, where the stated chain, title first, gives \<open>Srv\<close>.
\<close>

theorem legendEntryName_counterexample:
  "getWMSLayerTitle [WmsLayerInfo ''x'' (Some ''Srv'') None] ''x'' = ''Srv'' \<and>
   legendEntryName [WmsLayerInfo ''x'' (Some ''Srv'') None]
     \<lparr>entryId = ''x'', entryName = Some ''Cfg''\<rparr> = Some ''Cfg'' \<and>
   legendEntryName_spec [WmsLayerInfo ''x'' (Some ''Srv'') None]
     \<lparr>entryId = ''x'', entryName = Some ''Cfg''\<rparr> = Some ''Srv''"
  by (simp add: getWMSLayerTitle_def legendEntryName_def legendEntryName_spec_def js_or_def)

section \<open>Sub-config defaulting\<close>

text \<open>
  C5 (as the code has it). The first fetch of an entry that is not yet marked defaulted
  replaces its state by the dummy state, whether or not a state was configured, fills
  \<open>outfields\<close> with the wildcard only when the property is absent, fills the name
  with the server name only when the name is absent or empty, keeps every other
  property and marks the entry defaulted. An entry already marked defaulted is returned
  as it is. A key without an entry gets a new entry, fully defaulted and marked, whose
  index is the one parsed from the key: for the key of an integer, that integer.
\<close>

theorem fetchSubConfig_defaulting:
  "(subConfigs sid = Some subC \<and> \<not> defaulted subC \<longrightarrow>
      state (fst (fetchSubConfig sid serverName subConfigs)) = Some dummyState \<and>
      outfields (fst (fetchSubConfig sid serverName subConfigs))
        = (if outfields (config subC) = None then Some ''*'' else outfields (config subC)) \<and>
      name (fst (fetchSubConfig sid serverName subConfigs))
        = (if truthy (name (config subC)) then name (config subC) else Some serverName) \<and>
      index (fst (fetchSubConfig sid serverName subConfigs)) = index (config subC) \<and>
      stateOnly (fst (fetchSubConfig sid serverName subConfigs)) = stateOnly (config subC) \<and>
      controls (fst (fetchSubConfig sid serverName subConfigs)) = controls (config subC) \<and>
      snd (fetchSubConfig sid serverName subConfigs)
        = subConfigs(sid \<mapsto> \<lparr>config = fst (fetchSubConfig sid serverName subConfigs),
                               defaulted = True\<rparr>)) \<and>
   (subConfigs sid = Some subC \<and> defaulted subC \<longrightarrow>
      fetchSubConfig sid serverName subConfigs = (config subC, subConfigs)) \<and>
   (subConfigs sid = None \<longrightarrow>
      fst (fetchSubConfig sid serverName subConfigs)
        = \<lparr>index = parseInt sid, name = Some serverName, state = Some dummyState,
           outfields = Some ''*'', stateOnly = Some True, controls = None\<rparr> \<and>
      snd (fetchSubConfig sid serverName subConfigs)
        = subConfigs(sid \<mapsto> \<lparr>config = fst (fetchSubConfig sid serverName subConfigs),
                               defaulted = True\<rparr>)) \<and>
   (subConfigs (toString i) = None \<longrightarrow>
      index (fst (fetchSubConfig (toString i) serverName subConfigs)) = Some i)"
  by (simp add: fetchSubConfig_def Let_def parseInt_toString)

text \<open>
  An entry with only an index and a foreign property gets all three defaults; a key
  without an entry gets the new entry, its index parsed from the key.
\<close>

theorem fetchSubConfig_defaulting_witness:
  "state (fst (fetchSubConfig ''3'' ''Srv''
       [''3'' \<mapsto> \<lparr>config = \<lparr>index = Some 3, name = None, state = None, outfields = None,
                             stateOnly = None, controls = Some [''opacity'']\<rparr>,
                 defaulted = False\<rparr>]))
     = Some \<lparr>opacity = 1, visibility = False, query = False\<rparr> \<and>
   name (fst (fetchSubConfig ''3'' ''Srv''
       [''3'' \<mapsto> \<lparr>config = \<lparr>index = Some 3, name = None, state = None, outfields = None,
                             stateOnly = None, controls = Some [''opacity'']\<rparr>,
                 defaulted = False\<rparr>])) = Some ''Srv'' \<and>
   controls (fst (fetchSubConfig ''3'' ''Srv''
       [''3'' \<mapsto> \<lparr>config = \<lparr>index = Some 3, name = None, state = None, outfields = None,
                             stateOnly = None, controls = Some [''opacity'']\<rparr>,
                 defaulted = False\<rparr>])) = Some [''opacity''] \<and>
   fst (fetchSubConfig ''4'' ''Srv'' Map.empty)
     = \<lparr>index = Some 4, name = Some ''Srv'',
        state = Some \<lparr>opacity = 1, visibility = False, query = False\<rparr>,
        outfields = Some ''*'', stateOnly = Some True, controls = None\<rparr>"
  using fetchSubConfig_defaulting
      [where subConfigs = "[''3'' \<mapsto> \<lparr>config = \<lparr>index = Some 3, name = None, state = None,
                 outfields = None, stateOnly = None, controls = Some [''opacity'']\<rparr>,
               defaulted = False\<rparr>]"
         and sid = "''3''" and serverName = "''Srv''"
         and subC = "\<lparr>config = \<lparr>index = Some 3, name = None, state = None,
                 outfields = None, stateOnly = None, controls = Some [''opacity'']\<rparr>,
               defaulted = False\<rparr>"
         and i = 3]
    fetchSubConfig_defaulting
      [where subConfigs = Map.empty and sid = "''4''" and serverName = "''Srv''" and i = 4]
  by (simp add: dummyState_def parseInt_def parseDigits_def isDigit_def digitValue_def)

text \<open>
  C5 as stated fails: an entry configured with a state of its own (visible, queryable,
  half opaque) and nothing missing has that state replaced by the dummy state on the
  first fetch, where filling only what is missing would keep it.
\<close>

theorem fetchSubConfig_counterexample:
  "state (fst (fetchSubConfig ''0'' ''Srv''
       (collateSubConfigs False
         [\<lparr>index = Some 0, name = Some ''Roads'',
           state = Some \<lparr>opacity = 1 / 2, visibility = True, query = True\<rparr>,
           outfields = Some ''a,b'', stateOnly = None, controls = None\<rparr>] Map.empty)))
     = Some \<lparr>opacity = 1, visibility = False, query = False\<rparr> \<and>
   state (defaultEntry_spec ''Srv''
         \<lparr>index = Some 0, name = Some ''Roads'',
           state = Some \<lparr>opacity = 1 / 2, visibility = True, query = True\<rparr>,
           outfields = Some ''a,b'', stateOnly = None, controls = None\<rparr>)
     = Some \<lparr>opacity = 1 / 2, visibility = True, query = True\<rparr>"
  by (simp add: fetchSubConfig_def defaultEntry_spec_def dummyState_def numberToString_def
      toString_def natToString.simps digitChar_def Let_def)

lemma fetchSubConfig_frozen:
  "subConfigs k = Some e \<Longrightarrow> defaulted e \<Longrightarrow>
   snd (fetchSubConfig sid serverName subConfigs) k = Some e"
  by (auto simp: fetchSubConfig_def Let_def split: option.splits)

lemma fetchMany_frozen:
  "subConfigs k = Some e \<Longrightarrow> defaulted e \<Longrightarrow> fetchMany calls subConfigs k = Some e"
proof (induction calls arbitrary: subConfigs)
  case Nil
  then show ?case by simp
next
  case (Cons c calls)
  obtain sid serverName where c: "c = (sid, serverName)" by (cases c)
  from Cons.prems have "snd (fetchSubConfig sid serverName subConfigs) k = Some e"
    by (rule fetchSubConfig_frozen)
  then have "fetchMany calls (snd (fetchSubConfig sid serverName subConfigs)) k = Some e"
    using Cons.prems(2) by (rule Cons.IH)
  with c show ?case by simp
qed

lemma fetchSubConfig_marks:
  "snd (fetchSubConfig sid serverName subConfigs) sid
     = Some \<lparr>config = fst (fetchSubConfig sid serverName subConfigs), defaulted = True\<rparr>"
  by (auto simp: fetchSubConfig_def Let_def split: option.splits)

text \<open>
  C6. A second fetch of the same key, with any server name, returns the same config
  and leaves the table as the first fetch left it; after a fetch the marker of the key
  is true; and an entry whose marker is true is returned as it is and stays as it is,
  marker and config, through any run of fetches of any keys: the marker goes from
  false to true at most once and defaulting never runs again.
\<close>

theorem fetchSubConfig_idempotent:
  "fetchSubConfig sid otherName (snd (fetchSubConfig sid serverName subConfigs))
     = fetchSubConfig sid serverName subConfigs \<and>
   map_option defaulted (snd (fetchSubConfig sid serverName subConfigs) sid) = Some True \<and>
   (subConfigs k = Some e \<and> defaulted e \<longrightarrow>
      fetchSubConfig k serverName subConfigs = (config e, subConfigs) \<and>
      fetchMany calls subConfigs k = Some e)"
proof (intro conjI impI)
  show "fetchSubConfig sid otherName (snd (fetchSubConfig sid serverName subConfigs))
     = fetchSubConfig sid serverName subConfigs"
    by (cases "fetchSubConfig sid serverName subConfigs")
       (use fetchSubConfig_marks [of sid serverName subConfigs] in
         \<open>simp add: fetchSubConfig_def [of sid otherName]\<close>)
  show "map_option defaulted (snd (fetchSubConfig sid serverName subConfigs) sid) = Some True"
    by (simp add: fetchSubConfig_marks)
next
  assume "subConfigs k = Some e \<and> defaulted e"
  then show "fetchSubConfig k serverName subConfigs = (config e, subConfigs)"
    by (simp add: fetchSubConfig_def)
next
  assume "subConfigs k = Some e \<and> defaulted e"
  then show "fetchMany calls subConfigs k = Some e"
    by (simp add: fetchMany_frozen)
qed

theorem fetchSubConfig_idempotent_witness:
  "fetchMany [(''1'', ''x''), (''2'', ''y''), (''1'', ''z'')]
     (snd (fetchSubConfig ''1'' ''Srv'' Map.empty)) ''1''
     = Some \<lparr>config = \<lparr>index = Some 1, name = Some ''Srv'',
                state = Some \<lparr>opacity = 1, visibility = False, query = False\<rparr>,
                outfields = Some ''*'', stateOnly = Some True, controls = None\<rparr>,
             defaulted = True\<rparr>"
  using fetchSubConfig_idempotent
      [where subConfigs = "snd (fetchSubConfig ''1'' ''Srv'' Map.empty)" and k = "''1''"
         and e = "\<lparr>config = \<lparr>index = Some 1, name = Some ''Srv'',
                state = Some \<lparr>opacity = 1, visibility = False, query = False\<rparr>,
                outfields = Some ''*'', stateOnly = Some True, controls = None\<rparr>,
             defaulted = True\<rparr>"
         and calls = "[(''1'', ''x''), (''2'', ''y''), (''1'', ''z'')]"
         and sid = "''1''" and serverName = "''Srv''" and otherName = "''x''"]
  by (simp add: fetchSubConfig_def dummyState_def parseInt_def parseDigits_def isDigit_def
      digitValue_def Let_def)

section \<open>The initial visibility of a complete configuration\<close>

lemmas load_defs = onLoad_def onLoadTree_def newDynamicRecord_def numberToString_def toString_def
  natToString.simps digitChar_def Let_def fetchSubConfig_def isGroup_def entryLayerInfo_def
  processLeaf_def alloc_def newPlaceholderFC_def convertToPlaceholder_def
  newLayerInterface_def updateSource_def newDynamicFC_def newBasicFC_def js_or_def
  convertToDynamicLeaf_def storeFeatClass_def setInitialVisibility_def
  entryConfigProperty_def dummyState_def

text \<open>
  With a complete configuration the filter callback runs on the first key of the
  feature-class table and throws; only an empty table reaches the call, with the
  sentinel.
\<close>

lemma setInitialVisibility_throws:
  "configIsComplete this \<Longrightarrow> featClasses this \<noteq> [] \<Longrightarrow>
   setInitialVisibility subConfigs this = (Some TypeError, this)"
  by (cases "featClasses this")
     (auto simp: setInitialVisibility_def entryConfigProperty_def split: prod.splits)

lemma setInitialVisibility_sentinel:
  "configIsComplete this \<Longrightarrow> featClasses this = [] \<Longrightarrow>
   setInitialVisibility subConfigs this
     = (None, this\<lparr>setVisibleLayersCalls := setVisibleLayersCalls this @ [[Some (- 1)]]\<rparr>)"
  by (simp add: setInitialVisibility_def)

text \<open>
  C7 at a complete configuration with one visible sub-layer. The layer has the single
  sub-layer 0, the configuration names it, visible, and the attribute loader reports
  index 0. The load handler creates the feature class for 0 and then throws a
  TypeError; \<open>setVisibleLayers\<close> is never called, where the claim has it called
  once with the list of the visible index.
\<close>

theorem onLoad_complete_config_throws:
  "map_option (\<lambda>(e, this). (e, setVisibleLayersCalls this, map fst (featClasses this)))
     (onLoad 1
        \<lparr>layerInfos = [0 \<mapsto> \<lparr>infoId = 0, infoName = ''Roads'', subLayerIds = None\<rparr>],
         supportsDynamicLayers = True\<rparr>
        \<lparr>indexes = [''0''], packages = Map.empty\<rparr>
        (newDynamicRecord
           [\<lparr>index = Some 0, name = Some ''Roads'',
             state = Some \<lparr>opacity = 1, visibility = True, query = True\<rparr>,
             outfields = Some ''*'', stateOnly = None, controls = None\<rparr>] True))
   = Some (Some TypeError, [], [''0''])"
  by (simp add: load_defs)

section \<open>The child tree accessor\<close>

lemma getChildProxy_childTree: "childTree (snd (getChildProxy i this)) = childTree this"
  by (simp add: getChildProxy_def Let_def alloc_def split: option.splits)

lemma requestProxies_childTree: "childTree (requestProxies idxs this) = childTree this"
  by (induction idxs arbitrary: this) (simp_all add: getChildProxy_childTree)

lemma createFeatClasses_childTree:
  "childTree (snd (createFeatClasses idxs bundle subConfigs this)) = childTree this"
proof (induction idxs arbitrary: this)
  case Nil
  then show ?case by simp
next
  case (Cons idx idxs)
  show ?case
    by (simp add: Cons.IH storeFeatClass_def Let_def alloc_def split: option.splits sum.splits)
qed

lemma setInitialVisibility_childTree:
  "childTree (snd (setInitialVisibility subConfigs this)) = childTree this"
  by (simp add: setInitialVisibility_def Let_def split: sum.splits)

lemma onLoad_childTree:
  assumes load: "onLoad fuel layer b this = Some (e, this')"
  shows "\<exists>e' tree sc this3. onLoadTree fuel layer this = Some (e', tree, sc, this3) \<and>
           childTree this' = Some tree"
proof -
  from load obtain e' tree sc this3 where run: "onLoadTree fuel layer this = Some (e', tree, sc, this3)"
    by (cases "onLoadTree fuel layer this") (auto simp: onLoad_def)
  have "childTree this' = Some tree"
  proof (cases e')
    case (Some err)
    with load run show ?thesis by (auto simp: onLoad_def)
  next
    case None
    let ?cf = "createFeatClasses (indexes b) b sc (this3\<lparr>childTree := Some tree\<rparr>)"
    have cf: "childTree (snd ?cf) = Some tree" by (simp add: createFeatClasses_childTree)
    show ?thesis
    proof (cases "fst ?cf")
      case None2: None
      with load run None have "this' = snd (setInitialVisibility sc (snd ?cf))"
        by (cases ?cf) (auto simp: onLoad_def)
      then show ?thesis by (simp add: setInitialVisibility_childTree cf)
    next
      case (Some err)
      with load run None have "this' = snd ?cf"
        by (cases ?cf) (auto simp: onLoad_def)
      then show ?thesis by (simp add: cf)
    qed
  qed
  with run show ?thesis by simp
qed

text \<open>
  C9. On a record as constructed, after any proxy requests, \<open>getChildTree\<close> throws
  the error of the precondition. Once the load handler has run, to its end or to an
  exception, \<open>getChildTree\<close> returns the tree that the handler's crawl of the
  configured entries built.
\<close>

theorem getChildTree_precondition:
  "getChildTree (requestProxies idxs (newDynamicRecord les isComplete))
     = Inl (Error ''Called getChildTree before layer is loaded'') \<and>
   (onLoad fuel layer attribBundle this = Some (e, this') \<longrightarrow>
      (\<exists>e' tree subConfigs' this3.
         onLoadTree fuel layer this = Some (e', tree, subConfigs', this3) \<and>
         getChildTree this' = Inr tree))"
proof (intro conjI impI)
  show "getChildTree (requestProxies idxs (newDynamicRecord les isComplete))
     = Inl (Error ''Called getChildTree before layer is loaded'')"
    by (simp add: getChildTree_def requestProxies_childTree newDynamicRecord_def)
next
  assume "onLoad fuel layer attribBundle this = Some (e, this')"
  from onLoad_childTree [OF this]
  show "\<exists>e' tree subConfigs' this3.
         onLoadTree fuel layer this = Some (e', tree, subConfigs', this3) \<and>
         getChildTree this' = Inr tree"
    by (auto simp: getChildTree_def)
qed

text \<open>
  The load of a layer with the single sub-layer 0: the accessor returns the tree with
  the one leaf.
\<close>

theorem getChildTree_precondition_witness:
  "getChildTree
     (snd (the (onLoad 1
        \<lparr>layerInfos = [0 \<mapsto> \<lparr>infoId = 0, infoName = ''Roads'', subLayerIds = None\<rparr>],
         supportsDynamicLayers = True\<rparr>
        \<lparr>indexes = [''0''], packages = Map.empty\<rparr>
        (newDynamicRecord
           [\<lparr>index = Some 0, name = None, state = None, outfields = None,
             stateOnly = None, controls = None\<rparr>] False))))
     = Inr [TreeLeaf 0]"
  using getChildTree_precondition
    [where fuel = 1
       and layer = "\<lparr>layerInfos = [0 \<mapsto> \<lparr>infoId = 0, infoName = ''Roads'', subLayerIds = None\<rparr>],
         supportsDynamicLayers = True\<rparr>"
       and attribBundle = "\<lparr>indexes = [''0''], packages = Map.empty\<rparr>"
       and this = "newDynamicRecord
           [\<lparr>index = Some 0, name = None, state = None, outfields = None,
             stateOnly = None, controls = None\<rparr>] False"
       and e = None
       and this' = "snd (the (onLoad 1
        \<lparr>layerInfos = [0 \<mapsto> \<lparr>infoId = 0, infoName = ''Roads'', subLayerIds = None\<rparr>],
         supportsDynamicLayers = True\<rparr>
        \<lparr>indexes = [''0''], packages = Map.empty\<rparr>
        (newDynamicRecord
           [\<lparr>index = Some 0, name = None, state = None, outfields = None,
             stateOnly = None, controls = None\<rparr>] False)))"]
  by (simp add: load_defs)

section \<open>The default feature class of a FeatureRecord\<close>

lemma featureOnLoad_keeps_default:
  "defaultFeatClass this \<noteq> None \<Longrightarrow> defaultFeatClass (snd (featureOnLoad b this)) \<noteq> None"
  by (simp add: featureOnLoad_def defaultFeatClass_def Let_def split: sum.splits)

lemma featureLoads_keeps_default:
  "defaultFeatClass this \<noteq> None \<Longrightarrow> defaultFeatClass (featureLoads bundles this) \<noteq> None"
proof (induction bundles arbitrary: this)
  case Nil
  then show ?case by simp
next
  case (Cons b bs)
  from Cons.prems have "defaultFeatClass (snd (featureOnLoad b this)) \<noteq> None"
    by (rule featureOnLoad_keeps_default)
  then have "defaultFeatClass (featureLoads bs (snd (featureOnLoad b this))) \<noteq> None"
    by (rule Cons.IH)
  then show ?case by simp
qed

text \<open>
  C10. A new FeatureRecord has the default index \<open>0\<close> and, at that key, a
  placeholder carrying the layer's name. After any number of runs of the load handler,
  whatever they throw, the table has an entry at the key of the default index. A run
  on a record whose config has a state (a fully merged config) ends without exception,
  sets the default index to the first index the attribute loader reports, and the
  entry at that key is then an attributed feature class built for that index.
\<close>

theorem featureRecord_default_featClass:
  "defaultFC (newFeatureRecord layerName cfg) = Some ''0'' \<and>
   defaultFeatClass (newFeatureRecord layerName cfg) = Some (newPlaceholderFC layerName) \<and>
   defaultFeatClass (featureLoads bundles (newFeatureRecord layerName cfg)) \<noteq> None \<and>
   (configState (recordConfig this) \<noteq> None \<longrightarrow>
      fst (featureOnLoad attribBundle this) = None \<and>
      defaultFC (snd (featureOnLoad attribBundle this)) = firstIndex (indexes attribBundle) \<and>
      map_option fcClass (defaultFeatClass (snd (featureOnLoad attribBundle this)))
        = Some AttribClass \<and>
      map_option fcIdx (defaultFeatClass (snd (featureOnLoad attribBundle this)))
        = Some (firstIndex (indexes attribBundle)))"
proof -
  have init: "defaultFeatClass (newFeatureRecord layerName cfg) = Some (newPlaceholderFC layerName)"
    by (simp add: newFeatureRecord_def defaultFeatClass_def propertyKey_def Let_def)
  then have "defaultFeatClass (featureLoads bundles (newFeatureRecord layerName cfg)) \<noteq> None"
    by (intro featureLoads_keeps_default) simp
  moreover have "defaultFC (newFeatureRecord layerName cfg) = Some ''0''"
    by (simp add: newFeatureRecord_def Let_def)
  moreover have "configState (recordConfig this) \<noteq> None \<longrightarrow>
      fst (featureOnLoad attribBundle this) = None \<and>
      defaultFC (snd (featureOnLoad attribBundle this)) = firstIndex (indexes attribBundle) \<and>
      map_option fcClass (defaultFeatClass (snd (featureOnLoad attribBundle this)))
        = Some AttribClass \<and>
      map_option fcIdx (defaultFeatClass (snd (featureOnLoad attribBundle this)))
        = Some (firstIndex (indexes attribBundle))"
    by (auto simp: featureOnLoad_def newAttribFC_def newBasicFC_def defaultFeatClass_def Let_def)
  ultimately show ?thesis using init by simp
qed

text \<open>
  A layer named Parks whose attribute loader reports the index 3: after the load the
  default index is 3 and the feature class there is the attributed one.
\<close>

theorem featureRecord_default_featClass_witness:
  "defaultFC (snd (featureOnLoad \<lparr>indexes = [''3''], packages = Map.empty\<rparr>
       (newFeatureRecord (Some ''Parks'')
          \<lparr>configName = Some ''Parks'',
           configState = Some \<lparr>opacity = 1, visibility = True, query = True\<rparr>,
           configNameField = None\<rparr>))) = Some ''3'' \<and>
   map_option fcClass (defaultFeatClass (snd (featureOnLoad
       \<lparr>indexes = [''3''], packages = Map.empty\<rparr>
       (newFeatureRecord (Some ''Parks'')
          \<lparr>configName = Some ''Parks'',
           configState = Some \<lparr>opacity = 1, visibility = True, query = True\<rparr>,
           configNameField = None\<rparr>)))) = Some AttribClass"
  using featureRecord_default_featClass
    [where attribBundle = "\<lparr>indexes = [''3''], packages = Map.empty\<rparr>"
       and this = "newFeatureRecord (Some ''Parks'')
          \<lparr>configName = Some ''Parks'',
           configState = Some \<lparr>opacity = 1, visibility = True, query = True\<rparr>,
           configNameField = None\<rparr>"
       and layerName = "Some ''Parks''"
       and cfg = "\<lparr>configName = Some ''Parks'',
           configState = Some \<lparr>opacity = 1, visibility = True, query = True\<rparr>,
           configNameField = None\<rparr>"
       and bundles = "[]"]
  by (simp add: newFeatureRecord_def firstIndex_def Let_def)

section \<open>The child tree built by the load handler\<close>

lemma frozenExt_refl: "frozenExt a a"
  by (simp add: frozenExt_def)

lemma frozenExt_trans: "frozenExt a b \<Longrightarrow> frozenExt b c \<Longrightarrow> frozenExt a c"
  by (simp add: frozenExt_def)

lemma frozenExt_fetch: "frozenExt a (snd (fetchSubConfig sid serverName a))"
  by (simp add: frozenExt_def fetchSubConfig_frozen)

lemma resolvedName_after_fetch:
  assumes "fetchSubConfig (toString i) serverName a = (subC, b)" and "frozenExt b c"
  shows "resolvedName c i = name subC"
proof -
  from assms(1) fetchSubConfig_marks [of "toString i" serverName a]
  have "b (toString i) = Some \<lparr>config = subC, defaulted = True\<rparr>" by simp
  with assms(2) have "c (toString i) = Some \<lparr>config = subC, defaulted = True\<rparr>"
    by (simp add: frozenExt_def)
  then show ?thesis by (simp add: resolvedName_def)
qed

text \<open>
  The crawl of one node appends one tree node, which mirrors the server node with the
  names of any table that extends the one the crawl leaves; the crawl of a list of
  sub-layer ids appends one mirror per id, in order.
\<close>

lemma crawl_mirrors:
  "(processLayerInfo fuel infos lio arr sc st = Some (None, arr', sc', st') \<longrightarrow>
      frozenExt sc sc' \<and>
      (\<exists>li node. lio = Some li \<and> arr' = arr @ [node] \<and>
         (\<forall>sc''. frozenExt sc' sc'' \<longrightarrow> mirrors infos (resolvedName sc'') li node)))"
  "(processSubLayerIds fuel infos ids kids sc st = Some (None, kids', sc', st') \<longrightarrow>
      frozenExt sc sc' \<and>
      (\<exists>new. kids' = kids @ new \<and>
         (\<forall>sc''. frozenExt sc' sc'' \<longrightarrow>
            list_all2 (\<lambda>slid node. \<exists>sub. infos slid = Some sub \<and>
                          mirrors infos (resolvedName sc'') sub node) ids new)))"
proof (induction fuel infos lio arr sc st and fuel infos ids kids sc st
       arbitrary: arr' sc' st' and kids' sc' st'
       rule: processLayerInfo_processSubLayerIds.induct)
  case (1 fuel infos treeArray subConfigs this)
  show ?case by simp
next
  case (2 infos layerInfo treeArray subConfigs this)
  show ?case by simp
next
  case (3 fuel infos layerInfo treeArray subConfigs this)
  obtain subC sc1 where f: "fetchSubConfig (toString (infoId layerInfo)) (infoName layerInfo) subConfigs = (subC, sc1)"
    by (cases "fetchSubConfig (toString (infoId layerInfo)) (infoName layerInfo) subConfigs")
  have ext1: "frozenExt subConfigs sc1"
    using frozenExt_fetch [of subConfigs "toString (infoId layerInfo)" "infoName layerInfo"] f by simp
  show ?case
  proof (cases "isGroup layerInfo")
    case False
    show ?thesis
    proof (intro impI)
      assume run: "processLayerInfo (Suc fuel) infos (Some layerInfo) treeArray subConfigs this
                     = Some (None, arr', sc', st')"
      with f False have eqs: "arr' = treeArray @ [TreeLeaf (infoId layerInfo)]" "sc' = sc1"
        by (simp_all add: Let_def)
      from False have "\<And>nm. mirrors infos nm layerInfo (TreeLeaf (infoId layerInfo))"
        by (rule mirrorsLeaf)
      with eqs ext1 show "frozenExt subConfigs sc' \<and>
         (\<exists>li node. Some layerInfo = Some li \<and> arr' = treeArray @ [node] \<and>
            (\<forall>sc''. frozenExt sc' sc'' \<longrightarrow> mirrors infos (resolvedName sc'') li node))"
        by simp
    qed
  next
    case True
    then obtain ids where ids: "subLayerIds layerInfo = Some ids"
      by (auto simp: isGroup_def split: option.splits)
    show ?thesis
    proof (intro impI)
      assume run: "processLayerInfo (Suc fuel) infos (Some layerInfo) treeArray subConfigs this
                     = Some (None, arr', sc', st')"
      with f True ids obtain kids where
        sub: "processSubLayerIds fuel infos ids [] sc1 this = Some (None, kids, sc', st')"
        and arr': "arr' = treeArray @ [TreeGroup (infoId layerInfo) (name subC) kids]"
        by (auto simp: Let_def split: option.splits)
      from "3.IH" [OF refl refl f [symmetric] True] sub ids
      have ext2: "frozenExt sc1 sc'"
        and kidsM: "\<forall>sc''. frozenExt sc' sc'' \<longrightarrow>
            list_all2 (\<lambda>slid node. \<exists>sub. infos slid = Some sub \<and>
                          mirrors infos (resolvedName sc'') sub node) ids kids"
        by auto
      have "\<forall>sc''. frozenExt sc' sc'' \<longrightarrow>
              mirrors infos (resolvedName sc'') layerInfo
                (TreeGroup (infoId layerInfo) (name subC) kids)"
      proof (intro allI impI)
        fix sc'' assume e: "frozenExt sc' sc''"
        with ext2 have "frozenExt sc1 sc''" by (rule frozenExt_trans)
        with f have nm: "resolvedName sc'' (infoId layerInfo) = name subC"
          by (rule resolvedName_after_fetch)
        from kidsM e have "list_all2 (\<lambda>slid node. \<exists>sub. infos slid = Some sub \<and>
                          mirrors infos (resolvedName sc'') sub node) ids kids" by simp
        with True ids have "mirrors infos (resolvedName sc'') layerInfo
                (TreeGroup (infoId layerInfo) (resolvedName sc'' (infoId layerInfo)) kids)"
          by (rule mirrorsGroup)
        with nm show "mirrors infos (resolvedName sc'') layerInfo
                (TreeGroup (infoId layerInfo) (name subC) kids)" by simp
      qed
      with arr' ext1 ext2 show "frozenExt subConfigs sc' \<and>
         (\<exists>li node. Some layerInfo = Some li \<and> arr' = treeArray @ [node] \<and>
            (\<forall>sc''. frozenExt sc' sc'' \<longrightarrow> mirrors infos (resolvedName sc'') li node))"
        by (auto intro: frozenExt_trans)
    qed
  qed
next
  case (4 fuel infos kids subConfigs this)
  show ?case by (simp add: frozenExt_refl)
next
  case (5 fuel infos slid rest kids subConfigs this)
  show ?case
  proof (intro impI)
    assume run: "processSubLayerIds fuel infos (slid # rest) kids subConfigs this
                   = Some (None, kids', sc', st')"
    then obtain kids1 sc1 st1 where
      one: "processLayerInfo fuel infos (infos slid) kids subConfigs this = Some (None, kids1, sc1, st1)"
      and more: "processSubLayerIds fuel infos rest kids1 sc1 st1 = Some (None, kids', sc', st')"
      by (auto split: option.splits)
    from "5.IH"(1) one obtain li node where
      ext1: "frozenExt subConfigs sc1" and li: "infos slid = Some li"
      and kids1: "kids1 = kids @ [node]"
      and m1: "\<forall>sc''. frozenExt sc1 sc'' \<longrightarrow> mirrors infos (resolvedName sc'') li node"
      by blast
    from "5.IH"(2) [OF one refl refl refl] more obtain new where
      ext2: "frozenExt sc1 sc'" and kids': "kids' = kids1 @ new"
      and m2: "\<forall>sc''. frozenExt sc' sc'' \<longrightarrow>
            list_all2 (\<lambda>slid node. \<exists>sub. infos slid = Some sub \<and>
                          mirrors infos (resolvedName sc'') sub node) rest new"
      by blast
    have "\<forall>sc''. frozenExt sc' sc'' \<longrightarrow>
            list_all2 (\<lambda>slid node. \<exists>sub. infos slid = Some sub \<and>
                          mirrors infos (resolvedName sc'') sub node) (slid # rest) (node # new)"
    proof (intro allI impI)
      fix sc'' assume e: "frozenExt sc' sc''"
      with ext2 have "frozenExt sc1 sc''" by (rule frozenExt_trans)
      with m1 have "mirrors infos (resolvedName sc'') li node" by simp
      with li m2 e show "list_all2 (\<lambda>slid node. \<exists>sub. infos slid = Some sub \<and>
                          mirrors infos (resolvedName sc'') sub node) (slid # rest) (node # new)"
        by simp
    qed
    with kids1 kids' ext1 ext2 show "frozenExt subConfigs sc' \<and>
      (\<exists>new. kids' = kids @ new \<and>
         (\<forall>sc''. frozenExt sc' sc'' \<longrightarrow>
            list_all2 (\<lambda>slid node. \<exists>sub. infos slid = Some sub \<and>
                          mirrors infos (resolvedName sc'') sub node) (slid # rest) new))"
      by (auto intro: frozenExt_trans)
  qed
qed


lemma processEntries_mirrors:
  "processEntries fuel infos les tree sc st = Some (None, tree', sc', st') \<Longrightarrow>
   frozenExt sc sc' \<and>
   (\<exists>new. tree' = tree @ new \<and>
      (\<forall>sc''. frozenExt sc' sc'' \<longrightarrow>
         list_all2 (\<lambda>le node. \<exists>li. entryLayerInfo infos le = Some li \<and>
                       mirrors infos (resolvedName sc'') li node) (configuredRoots les) new))"
proof (induction les arbitrary: tree sc st)
  case Nil
  then show ?case by (simp add: frozenExt_refl configuredRoots_def)
next
  case (Cons le les)
  show ?case
  proof (cases "stateOnly le = Some True")
    case True
    with Cons.prems have "processEntries fuel infos les tree sc st = Some (None, tree', sc', st')"
      by simp
    from Cons.IH [OF this] True show ?thesis by (simp add: configuredRoots_def)
  next
    case False
    with Cons.prems obtain tree1 sc1 st1 where
      one: "processLayerInfo fuel infos (entryLayerInfo infos le) tree sc st
              = Some (None, tree1, sc1, st1)"
      and more: "processEntries fuel infos les tree1 sc1 st1 = Some (None, tree', sc', st')"
      by (auto split: option.splits)
    from crawl_mirrors(1) [of fuel infos "entryLayerInfo infos le" tree sc st tree1 sc1 st1] one
    obtain li node where
      ext1: "frozenExt sc sc1" and li: "entryLayerInfo infos le = Some li"
      and tree1: "tree1 = tree @ [node]"
      and m1: "\<forall>sc''. frozenExt sc1 sc'' \<longrightarrow> mirrors infos (resolvedName sc'') li node"
      by blast
    from Cons.IH [OF more] obtain new where
      ext2: "frozenExt sc1 sc'" and tree': "tree' = tree1 @ new"
      and m2: "\<forall>sc''. frozenExt sc' sc'' \<longrightarrow>
         list_all2 (\<lambda>le node. \<exists>li. entryLayerInfo infos le = Some li \<and>
                       mirrors infos (resolvedName sc'') li node) (configuredRoots les) new"
      by blast
    have "\<forall>sc''. frozenExt sc' sc'' \<longrightarrow>
         list_all2 (\<lambda>le node. \<exists>li. entryLayerInfo infos le = Some li \<and>
                       mirrors infos (resolvedName sc'') li node)
           (configuredRoots (le # les)) (node # new)"
    proof (intro allI impI)
      fix sc'' assume e: "frozenExt sc' sc''"
      with ext2 have "frozenExt sc1 sc''" by (rule frozenExt_trans)
      with m1 have "mirrors infos (resolvedName sc'') li node" by simp
      with li m2 e False show "list_all2 (\<lambda>le node. \<exists>li. entryLayerInfo infos le = Some li \<and>
                       mirrors infos (resolvedName sc'') li node)
           (configuredRoots (le # les)) (node # new)"
        by (simp add: configuredRoots_def)
    qed
    with tree1 tree' ext1 ext2 show ?thesis
      by (auto intro: frozenExt_trans)
  qed
qed

text \<open>On a hierarchy nested within the fuel the crawl returns, without exception.\<close>

lemma processSubLayerIds_returns:
  assumes one: "\<And>i arr sc st. nestedWithin d infos i \<Longrightarrow>
                  \<exists>arr' sc' st'. processLayerInfo d infos (infos i) arr sc st = Some (None, arr', sc', st')"
  shows "list_all (nestedWithin d infos) ids \<Longrightarrow>
         \<exists>kids' sc' st'. processSubLayerIds d infos ids kids sc st = Some (None, kids', sc', st')"
proof (induction ids arbitrary: kids sc st)
  case Nil
  then show ?case by simp
next
  case (Cons slid rest)
  from Cons.prems have "nestedWithin d infos slid" and rest: "list_all (nestedWithin d infos) rest"
    by simp_all
  from one [OF this(1)] obtain kids1 sc1 st1 where
    "processLayerInfo d infos (infos slid) kids sc st = Some (None, kids1, sc1, st1)" by blast
  moreover from Cons.IH [OF rest] obtain kids' sc' st' where
    "processSubLayerIds d infos rest kids1 sc1 st1 = Some (None, kids', sc', st')" by blast
  ultimately show ?case by simp
qed

lemma processLayerInfo_returns:
  "nestedWithin d infos i \<Longrightarrow>
   \<exists>arr' sc' st'. processLayerInfo d infos (infos i) arr sc st = Some (None, arr', sc', st')"
proof (induction d arbitrary: i arr sc st)
  case 0
  then show ?case by simp
next
  case (Suc d)
  from Suc.prems obtain li where li: "infos i = Some li"
    by (auto split: option.splits)
  show ?case
  proof (cases "isGroup li")
    case False
    with li show ?thesis by (simp add: Let_def split: prod.splits)
  next
    case True
    then obtain ids where ids: "subLayerIds li = Some ids"
      by (auto simp: isGroup_def split: option.splits)
    with Suc.prems li have "list_all (nestedWithin d infos) ids" by simp
    from processSubLayerIds_returns [where d = d and infos = infos, OF Suc.IH this]
    have "\<And>kids sc st. \<exists>kids' sc' st'.
            processSubLayerIds d infos ids kids sc st = Some (None, kids', sc', st')"
      by blast
    then have sub: "\<And>kids sc st. \<exists>kids' sc' st'.
            processSubLayerIds d infos ids kids sc st = Some (None, kids', sc', st')" .
    obtain subC sc1 where f: "fetchSubConfig (toString (infoId li)) (infoName li) sc = (subC, sc1)"
      by (cases "fetchSubConfig (toString (infoId li)) (infoName li) sc")
    from sub [of "[]" sc1 st] obtain kids' sc' st' where
      "processSubLayerIds d infos ids [] sc1 st = Some (None, kids', sc', st')" by blast
    with li True ids f show ?thesis by (simp add: Let_def)
  qed
qed


lemma processEntries_returns:
  "list_all (\<lambda>le. case index le of Some i \<Rightarrow> nestedWithin fuel infos i | None \<Rightarrow> False)
     (configuredRoots les) \<Longrightarrow>
   \<exists>tree' sc' st'. processEntries fuel infos les tree sc st = Some (None, tree', sc', st')"
proof (induction les arbitrary: tree sc st)
  case Nil
  then show ?case by simp
next
  case (Cons le les)
  show ?case
  proof (cases "stateOnly le = Some True")
    case True
    with Cons.prems have "list_all (\<lambda>le. case index le of Some i \<Rightarrow> nestedWithin fuel infos i | None \<Rightarrow> False)
     (configuredRoots les)" by (simp add: configuredRoots_def)
    from Cons.IH [OF this] True show ?thesis by simp
  next
    case False
    with Cons.prems obtain i where i: "index le = Some i" and n: "nestedWithin fuel infos i"
      and rest: "list_all (\<lambda>le. case index le of Some i \<Rightarrow> nestedWithin fuel infos i | None \<Rightarrow> False)
     (configuredRoots les)"
      by (auto simp: configuredRoots_def split: option.splits)
    from processLayerInfo_returns [OF n] i obtain tree1 sc1 st1 where
      "processLayerInfo fuel infos (entryLayerInfo infos le) tree sc st = Some (None, tree1, sc1, st1)"
      by (auto simp: entryLayerInfo_def) blast
    moreover from Cons.IH [OF rest] obtain tree' sc' st' where
      "processEntries fuel infos les tree1 sc1 st1 = Some (None, tree', sc', st')" by blast
    ultimately show ?thesis using False by simp
  qed
qed

text \<open>
  C8. When the hierarchy below every configured entry that is not \<open>stateOnly\<close> is
  nested within the fuel, the crawl of the load handler returns without exception and
  the handler returns. Whenever the crawl returns without exception, the tree has one
  node per such entry, in the order of the configuration, and each mirrors the server
  node at the entry's index: a server node with sub-layer ids as a group with its
  index, its resolved name and the mirrors of its sub-layers in the server's order, a
  node without as a leaf with only its index; and that tree is the record's child
  tree once the handler has run.
\<close>

theorem childTree_mirrors_hierarchy:
  "(list_all (\<lambda>le. case index le of Some i \<Rightarrow> nestedWithin fuel (layerInfos layer) i
                                   | None \<Rightarrow> False)
      (configuredRoots (layerEntries this)) \<longrightarrow>
      (\<exists>tree sc' st'. onLoadTree fuel layer this = Some (None, tree, sc', st')) \<and>
      onLoad fuel layer attribBundle this \<noteq> None) \<and>
   (onLoadTree fuel layer this = Some (None, tree, sc', st') \<longrightarrow>
      list_all2 (\<lambda>le node. \<exists>li. entryLayerInfo (layerInfos layer) le = Some li \<and>
                    mirrors (layerInfos layer) (resolvedName sc') li node)
        (configuredRoots (layerEntries this)) tree \<and>
      (\<forall>e this'. onLoad fuel layer attribBundle this = Some (e, this') \<longrightarrow>
                   childTree this' = Some tree))"
proof (intro conjI impI allI)
  assume nested: "list_all (\<lambda>le. case index le of Some i \<Rightarrow> nestedWithin fuel (layerInfos layer) i
                                   | None \<Rightarrow> False)
      (configuredRoots (layerEntries this))"
  from processEntries_returns [OF this]
  show ret: "\<exists>tree sc' st'. onLoadTree fuel layer this = Some (None, tree, sc', st')"
    by (simp add: onLoadTree_def)
  then show "onLoad fuel layer attribBundle this \<noteq> None"
    by (auto simp: onLoad_def split: prod.splits option.splits)
next
  assume run: "onLoadTree fuel layer this = Some (None, tree, sc', st')"
  from processEntries_mirrors [of fuel "layerInfos layer" "layerEntries this" "[]" _ _ tree sc' st']
    run
  show "list_all2 (\<lambda>le node. \<exists>li. entryLayerInfo (layerInfos layer) le = Some li \<and>
                    mirrors (layerInfos layer) (resolvedName sc') li node)
        (configuredRoots (layerEntries this)) tree"
    by (auto simp: onLoadTree_def Let_def frozenExt_refl)
next
  fix e this'
  assume "onLoadTree fuel layer this = Some (None, tree, sc', st')"
    and "onLoad fuel layer attribBundle this = Some (e, this')"
  with onLoad_childTree [of fuel layer attribBundle this e this']
  show "childTree this' = Some tree" by auto
qed

text \<open>
  The hierarchy of the specification's example, stored at the positions of the ids,
  with only index 1 configured: one group for index 1 holding the leaf 2 and the group
  3, which holds the leaf 4.
\<close>

theorem childTree_mirrors_hierarchy_witness:
  "nestedWithin 3
     [1 \<mapsto> \<lparr>infoId = 1, infoName = ''A'', subLayerIds = Some [2, 3]\<rparr>,
      2 \<mapsto> \<lparr>infoId = 2, infoName = ''B'', subLayerIds = None\<rparr>,
      3 \<mapsto> \<lparr>infoId = 3, infoName = ''C'', subLayerIds = Some [4]\<rparr>,
      4 \<mapsto> \<lparr>infoId = 4, infoName = ''D'', subLayerIds = None\<rparr>] 1 \<and>
   map_option (\<lambda>(e, this'). (e, childTree this'))
     (onLoad 3
        \<lparr>layerInfos =
           [1 \<mapsto> \<lparr>infoId = 1, infoName = ''A'', subLayerIds = Some [2, 3]\<rparr>,
            2 \<mapsto> \<lparr>infoId = 2, infoName = ''B'', subLayerIds = None\<rparr>,
            3 \<mapsto> \<lparr>infoId = 3, infoName = ''C'', subLayerIds = Some [4]\<rparr>,
            4 \<mapsto> \<lparr>infoId = 4, infoName = ''D'', subLayerIds = None\<rparr>],
         supportsDynamicLayers = True\<rparr>
        \<lparr>indexes = [''2'', ''4''], packages = Map.empty\<rparr>
        (newDynamicRecord
           [\<lparr>index = Some 1, name = None, state = None, outfields = None,
             stateOnly = None, controls = None\<rparr>] False))
   = Some (None, Some [TreeGroup 1 (Some ''A'')
                         [TreeLeaf 2, TreeGroup 3 (Some ''C'') [TreeLeaf 4]]])"
  using childTree_mirrors_hierarchy
    [where fuel = 3
       and layer = "\<lparr>layerInfos =
           [1 \<mapsto> \<lparr>infoId = 1, infoName = ''A'', subLayerIds = Some [2, 3]\<rparr>,
            2 \<mapsto> \<lparr>infoId = 2, infoName = ''B'', subLayerIds = None\<rparr>,
            3 \<mapsto> \<lparr>infoId = 3, infoName = ''C'', subLayerIds = Some [4]\<rparr>,
            4 \<mapsto> \<lparr>infoId = 4, infoName = ''D'', subLayerIds = None\<rparr>],
         supportsDynamicLayers = True\<rparr>"
       and attribBundle = "\<lparr>indexes = [''2'', ''4''], packages = Map.empty\<rparr>"
       and this = "newDynamicRecord
           [\<lparr>index = Some 1, name = None, state = None, outfields = None,
             stateOnly = None, controls = None\<rparr>] False"
       and tree = "[TreeGroup 1 (Some ''A'') [TreeLeaf 2, TreeGroup 3 (Some ''C'') [TreeLeaf 4]]]"
       and sc' = "fst (snd (snd (the (onLoadTree 3
          \<lparr>layerInfos =
           [1 \<mapsto> \<lparr>infoId = 1, infoName = ''A'', subLayerIds = Some [2, 3]\<rparr>,
            2 \<mapsto> \<lparr>infoId = 2, infoName = ''B'', subLayerIds = None\<rparr>,
            3 \<mapsto> \<lparr>infoId = 3, infoName = ''C'', subLayerIds = Some [4]\<rparr>,
            4 \<mapsto> \<lparr>infoId = 4, infoName = ''D'', subLayerIds = None\<rparr>],
         supportsDynamicLayers = True\<rparr>
          (newDynamicRecord
           [\<lparr>index = Some 1, name = None, state = None, outfields = None,
             stateOnly = None, controls = None\<rparr>] False)))))"
       and st' = "snd (snd (snd (the (onLoadTree 3
          \<lparr>layerInfos =
           [1 \<mapsto> \<lparr>infoId = 1, infoName = ''A'', subLayerIds = Some [2, 3]\<rparr>,
            2 \<mapsto> \<lparr>infoId = 2, infoName = ''B'', subLayerIds = None\<rparr>,
            3 \<mapsto> \<lparr>infoId = 3, infoName = ''C'', subLayerIds = Some [4]\<rparr>,
            4 \<mapsto> \<lparr>infoId = 4, infoName = ''D'', subLayerIds = None\<rparr>],
         supportsDynamicLayers = True\<rparr>
          (newDynamicRecord
           [\<lparr>index = Some 1, name = None, state = None, outfields = None,
             stateOnly = None, controls = None\<rparr>] False)))))"]
  by (simp add: load_defs configuredRoots_def eval_nat_numeral)

section \<open>The proxy of a sub-layer before and after the load\<close>

lemma proxyStep_refl: "proxyStep a a"
  by (simp add: proxyStep_def)

lemma proxyStep_trans: "proxyStep a b \<Longrightarrow> proxyStep b c \<Longrightarrow> proxyStep a c"
  by (simp add: proxyStep_def)

lemma getChildProxy_old:
  "proxies this (toString i) = Some p \<Longrightarrow> getChildProxy i this = (p, this)"
  by (simp add: getChildProxy_def)

lemma getChildProxy_new:
  "proxies this (toString i) = None \<Longrightarrow>
   getChildProxy i this =
     (length (proxyHeap this),
      this\<lparr>fcHeap := fcHeap this @ [newPlaceholderFC (Some [])],
           proxyHeap := proxyHeap this @
             [convertToPlaceholder (newLayerInterface (Some (length (fcHeap this))))
                (length (fcHeap this))],
           proxies := (proxies this)(toString i \<mapsto> length (proxyHeap this))\<rparr>)"
  by (simp add: getChildProxy_def alloc_def)

lemma placeholderProxy_append:
  "p < length (proxyHeap this) \<Longrightarrow> placeholderProxy this p \<Longrightarrow>
   placeholderProxy (this\<lparr>fcHeap := fcHeap this @ [fc], proxyHeap := proxyHeap this @ [pr],
                         proxies := m\<rparr>) p"
  by (auto simp: placeholderProxy_def nth_append)

lemma placeholderProxy_fresh:
  "placeholderProxy
     (this\<lparr>fcHeap := fcHeap this @ [newPlaceholderFC (Some [])],
           proxyHeap := proxyHeap this @
             [convertToPlaceholder (newLayerInterface (Some (length (fcHeap this))))
                (length (fcHeap this))],
           proxies := m\<rparr>) (length (proxyHeap this))"
  by (simp add: placeholderProxy_def convertToPlaceholder_def newLayerInterface_def)

lemma preLoad_getChildProxy:
  assumes "preLoad this"
  shows "preLoad (snd (getChildProxy i this))"
proof (cases "proxies this (toString i)")
  case (Some p)
  with assms show ?thesis by (simp add: getChildProxy_old)
next
  case None
  from assms have wf: "proxiesWf this" and fc: "featClasses this = []"
    and ph: "\<And>k p. proxies this k = Some p \<Longrightarrow> placeholderProxy this p"
    by (auto simp: preLoad_def)
  let ?this' = "snd (getChildProxy i this)"
  have wf': "proxiesWf ?this'"
    using wf None unfolding proxiesWf_def getChildProxy_new [OF None]
    by (auto simp: less_Suc_eq split: if_splits)
  moreover have "featClasses ?this' = []"
    using fc by (simp add: getChildProxy_new [OF None])
  moreover have "placeholderProxy ?this' q" if q: "proxies ?this' k = Some q" for k q
  proof (cases "k = toString i")
    case True
    with q have "q = length (proxyHeap this)" by (simp add: getChildProxy_new [OF None])
    then show ?thesis by (simp add: getChildProxy_new [OF None] placeholderProxy_fresh)
  next
    case False
    with q have old: "proxies this k = Some q" by (simp add: getChildProxy_new [OF None])
    with wf have "q < length (proxyHeap this)" by (auto simp: proxiesWf_def)
    with ph [OF old] show ?thesis
      by (simp add: getChildProxy_new [OF None] placeholderProxy_append)
  qed
  ultimately show ?thesis by (simp add: preLoad_def)
qed

lemma preLoad_new: "preLoad (newDynamicRecord les isComplete)"
  by (simp add: preLoad_def proxiesWf_def newDynamicRecord_def)

lemma preLoad_requestProxies: "preLoad this \<Longrightarrow> preLoad (requestProxies idxs this)"
  by (induction idxs arbitrary: this) (simp_all add: preLoad_getChildProxy)

lemma getChildProxy_registers:
  "proxies (snd (getChildProxy i this)) (toString i) = Some (fst (getChildProxy i this))"
  by (cases "proxies this (toString i)") (simp_all add: getChildProxy_old getChildProxy_new)

lemma getChildProxy_keeps:
  "proxies this k = Some p \<Longrightarrow> proxiesWf this \<Longrightarrow> proxies (snd (getChildProxy i this)) k = Some p"
  by (cases "proxies this (toString i)") (auto simp: getChildProxy_old getChildProxy_new)

lemma requestProxies_keeps:
  "preLoad this \<Longrightarrow> proxies this k = Some p \<Longrightarrow> proxies (requestProxies idxs this) k = Some p"
proof (induction idxs arbitrary: this)
  case Nil
  then show ?case by simp
next
  case (Cons i idxs)
  from Cons.prems have "proxies (snd (getChildProxy i this)) k = Some p"
    by (simp add: getChildProxy_keeps preLoad_def)
  with Cons.prems(1) Cons.IH [of "snd (getChildProxy i this)"] show ?case
    by (simp add: preLoad_getChildProxy)
qed

lemma proxyStep_processLeaf: "proxyStep this (processLeaf sId subC this)"
proof (cases "proxies this sId")
  case (Some p)
  then show ?thesis
    by (simp add: processLeaf_def alloc_def proxyStep_def proxiesWf_def)
next
  case None
  then show ?thesis
    unfolding proxyStep_def proxiesWf_def
    by (auto simp: processLeaf_def alloc_def Let_def less_Suc_eq split: if_splits)
qed

lemma proxyStep_crawl:
  "processLayerInfo fuel infos lio arr sc st = Some (e, arr', sc', st') \<longrightarrow> proxyStep st st'"
  "processSubLayerIds fuel infos ids kids sc st = Some (e, kids', sc', st') \<longrightarrow> proxyStep st st'"
proof (induction fuel infos lio arr sc st and fuel infos ids kids sc st
       arbitrary: e arr' sc' st' and e kids' sc' st'
       rule: processLayerInfo_processSubLayerIds.induct)
  case (1 fuel infos treeArray subConfigs this)
  show ?case by (simp add: proxyStep_refl)
next
  case (2 infos layerInfo treeArray subConfigs this)
  show ?case by simp
next
  case (3 fuel infos layerInfo treeArray subConfigs this)
  obtain subC sc1 where f: "fetchSubConfig (toString (infoId layerInfo)) (infoName layerInfo) subConfigs = (subC, sc1)"
    by (cases "fetchSubConfig (toString (infoId layerInfo)) (infoName layerInfo) subConfigs")
  show ?case
  proof (cases "isGroup layerInfo")
    case False
    with f show ?thesis by (auto simp: Let_def proxyStep_processLeaf)
  next
    case True
    with f "3.IH" [OF refl refl f [symmetric] True] show ?thesis
      by (auto simp: Let_def split: option.splits)
  qed
next
  case (4 fuel infos kids subConfigs this)
  show ?case by (simp add: proxyStep_refl)
next
  case (5 fuel infos slid rest kids subConfigs this)
  show ?case
  proof (intro impI)
    assume run: "processSubLayerIds fuel infos (slid # rest) kids subConfigs this
                   = Some (e, kids', sc', st')"
    then obtain e1 kids1 sc1 st1 where
      one: "processLayerInfo fuel infos (infos slid) kids subConfigs this = Some (e1, kids1, sc1, st1)"
      by (auto split: option.splits)
    from "5.IH"(1) one have s1: "proxyStep this st1" by blast
    show "proxyStep this st'"
    proof (cases e1)
      case (Some err)
      with run one have "st' = st1" by simp
      with s1 show ?thesis by simp
    next
      case None
      with run one have more: "processSubLayerIds fuel infos rest kids1 sc1 st1 = Some (e, kids', sc', st')"
        by simp
      from "5.IH"(2) [OF one [unfolded None] refl refl refl] more have "proxyStep st1 st'" by blast
      with s1 show ?thesis by (rule proxyStep_trans)
    qed
  qed
qed

lemma proxyStep_processEntries:
  "processEntries fuel infos les tree sc st = Some (e, tree', sc', st') \<Longrightarrow> proxyStep st st'"
proof (induction les arbitrary: tree sc st)
  case Nil
  then show ?case by (simp add: proxyStep_refl)
next
  case (Cons le les)
  show ?case
  proof (cases "stateOnly le = Some True")
    case True
    with Cons.prems Cons.IH show ?thesis by simp
  next
    case False
    with Cons.prems obtain e1 tree1 sc1 st1 where
      one: "processLayerInfo fuel infos (entryLayerInfo infos le) tree sc st = Some (e1, tree1, sc1, st1)"
      by (auto split: option.splits)
    from proxyStep_crawl(1) one have s1: "proxyStep st st1" by blast
    show ?thesis
    proof (cases e1)
      case (Some err)
      with Cons.prems one False have "st' = st1" by simp
      with s1 show ?thesis by simp
    next
      case None
      with Cons.prems one False have "processEntries fuel infos les tree1 sc1 st1 = Some (e, tree', sc', st')"
        by simp
      from Cons.IH [OF this] s1 show ?thesis by (rule proxyStep_trans [rotated])
    qed
  qed
qed

lemma proxyStep_onLoadTree:
  "onLoadTree fuel layer this = Some (e, tree, sc, this3) \<Longrightarrow> proxyStep this this3"
proof -
  assume "onLoadTree fuel layer this = Some (e, tree, sc, this3)"
  then have "proxyStep (this\<lparr>isTrueDynamic := supportsDynamicLayers layer, childTree := Some []\<rparr>) this3"
    by (simp add: onLoadTree_def Let_def proxyStep_processEntries)
  then show ?thesis by (simp add: proxyStep_def proxiesWf_def)
qed

lemma newDynamicFC_class: "newDynamicFC idx pkg cfg = Inr obj \<Longrightarrow> fcClass obj = DynamicClass"
  by (auto simp: newDynamicFC_def newBasicFC_def split: option.splits)

lemma leafProxyOf_convert:
  "p < length (proxyHeap this) \<Longrightarrow>
   leafProxyOf (this\<lparr>fcHeap := h, featClasses := fcs,
       proxyHeap := (proxyHeap this)[p := convertToDynamicLeaf (proxyHeap this ! p) r]\<rparr>) p r"
  by (simp add: leafProxyOf_def convertToDynamicLeaf_def)

lemma storeFeatClass_inv:
  assumes wf: "proxiesWf this" and inv: "resolvedInv this" and cls: "fcClass obj = DynamicClass"
  shows "proxiesWf (storeFeatClass idx obj this) \<and> resolvedInv (storeFeatClass idx obj this) \<and>
         proxies (storeFeatClass idx obj this) = proxies this"
proof (intro conjI)
  let ?s = "storeFeatClass idx obj this"
  let ?r = "length (fcHeap this)"
  show px: "proxies ?s = proxies this"
    by (simp add: storeFeatClass_def Let_def alloc_def split: option.splits)
  have len: "length (proxyHeap ?s) = length (proxyHeap this)"
    by (simp add: storeFeatClass_def Let_def alloc_def split: option.splits)
  from wf px len show "proxiesWf ?s" by (simp add: proxiesWf_def)
  have fh: "fcHeap ?s = fcHeap this @ [obj]"
    by (simp add: storeFeatClass_def Let_def alloc_def split: option.splits)
  have fcs: "map_of (featClasses ?s) = (map_of (featClasses this))(idx \<mapsto> ?r)"
    by (simp add: storeFeatClass_def Let_def alloc_def update_conv' split: option.splits)
  show "resolvedInv ?s"
    unfolding resolvedInv_def
  proof (intro allI impI)
    fix k r assume kr: "map_of (featClasses ?s) k = Some r"
    show "r < length (fcHeap ?s) \<and> fcClass (fcHeap ?s ! r) = DynamicClass \<and>
          (\<forall>p. proxies ?s k = Some p \<longrightarrow> leafProxyOf ?s p r)"
    proof (cases "k = idx")
      case True
      with kr fcs have r: "r = ?r" by simp
      have "leafProxyOf ?s p r" if "proxies ?s k = Some p" for p
      proof -
        from that px True have p: "proxies this idx = Some p" by simp
        with wf have "p < length (proxyHeap this)" by (auto simp: proxiesWf_def)
        with p r show ?thesis
          by (simp add: storeFeatClass_def Let_def alloc_def leafProxyOf_def convertToDynamicLeaf_def)
      qed
      with r fh cls show ?thesis by simp
    next
      case False
      with kr fcs have old: "map_of (featClasses this) k = Some r" by simp
      with inv have rl: "r < length (fcHeap this)" and rc: "fcClass (fcHeap this ! r) = DynamicClass"
        and rp: "\<And>p. proxies this k = Some p \<Longrightarrow> leafProxyOf this p r"
        by (auto simp: resolvedInv_def)
      have "leafProxyOf ?s p r" if "proxies ?s k = Some p" for p
      proof -
        from that px have p: "proxies this k = Some p" by simp
        have "proxyHeap ?s ! p = proxyHeap this ! p"
        proof (cases "proxies this idx")
          case None
          then show ?thesis by (simp add: storeFeatClass_def Let_def alloc_def)
        next
          case (Some q)
          with p wf False have "q \<noteq> p" by (auto simp: proxiesWf_def)
          with Some show ?thesis by (simp add: storeFeatClass_def Let_def alloc_def)
        qed
        with rp [OF p] show ?thesis by (simp add: leafProxyOf_def)
      qed
      with rl rc fh show ?thesis by (simp add: nth_append)
    qed
  qed
qed

lemma createFeatClasses_inv:
  "proxiesWf this \<Longrightarrow> resolvedInv this \<Longrightarrow>
   proxiesWf (snd (createFeatClasses idxs b sc this)) \<and>
   resolvedInv (snd (createFeatClasses idxs b sc this)) \<and>
   proxies (snd (createFeatClasses idxs b sc this)) = proxies this"
proof (induction idxs arbitrary: this)
  case Nil
  then show ?case by simp
next
  case (Cons idx idxs)
  show ?case
  proof (cases "sc idx")
    case None
    with Cons show ?thesis by simp
  next
    case (Some subC)
    show ?thesis
    proof (cases "defaulted subC")
      case False
      with Some Cons show ?thesis by simp
    next
      case True
      show ?thesis
      proof (cases "newDynamicFC idx (packages b idx) (config subC)")
        case (Inl err)
        with Some True Cons.prems show ?thesis by simp
      next
        case (Inr obj)
        from storeFeatClass_inv [OF Cons.prems newDynamicFC_class [OF Inr], of idx]
        have st: "proxiesWf (storeFeatClass idx obj this)" "resolvedInv (storeFeatClass idx obj this)"
          "proxies (storeFeatClass idx obj this) = proxies this" by simp_all
        from Cons.IH [OF st(1) st(2)] st(3) Some True Inr show ?thesis
          by simp
      qed
    qed
  qed
qed

lemma setInitialVisibility_fields:
  "proxies (snd (setInitialVisibility sc this)) = proxies this \<and>
   proxyHeap (snd (setInitialVisibility sc this)) = proxyHeap this \<and>
   fcHeap (snd (setInitialVisibility sc this)) = fcHeap this \<and>
   featClasses (snd (setInitialVisibility sc this)) = featClasses this"
  by (simp add: setInitialVisibility_def Let_def split: sum.splits)

lemma onLoad_resolved:
  assumes pre: "preLoad this" and load: "onLoad fuel layer b this = Some (e, this')"
  shows "resolvedInv this' \<and> (\<forall>k p. proxies this k = Some p \<longrightarrow> proxies this' k = Some p)"
proof -
  from load obtain e1 tree sc this3 where run: "onLoadTree fuel layer this = Some (e1, tree, sc, this3)"
    by (cases "onLoadTree fuel layer this") (auto simp: onLoad_def)
  from proxyStep_onLoadTree [OF run] pre
  have wf3: "proxiesWf this3" and keep3: "\<And>k p. proxies this k = Some p \<Longrightarrow> proxies this3 k = Some p"
    and fc3: "featClasses this3 = []"
    by (auto simp: proxyStep_def preLoad_def)
  let ?t = "this3\<lparr>childTree := Some tree\<rparr>"
  have wft: "proxiesWf ?t" using wf3 by (simp add: proxiesWf_def)
  have invt: "resolvedInv ?t" using fc3 by (simp add: resolvedInv_def)
  have keept: "\<And>k p. proxies this k = Some p \<Longrightarrow> proxies ?t k = Some p" using keep3 by simp
  show ?thesis
  proof (cases e1)
    case (Some err)
    with load run have "this' = ?t" by (auto simp: onLoad_def)
    with invt keept show ?thesis by simp
  next
    case None
    let ?cf = "createFeatClasses (indexes b) b sc ?t"
    from createFeatClasses_inv [OF wft invt, of "indexes b" b sc]
    have inv4: "resolvedInv (snd ?cf)" and px4: "proxies (snd ?cf) = proxies ?t" by simp_all
    show ?thesis
    proof (cases "fst ?cf")
      case (Some err)
      with load run None have "this' = snd ?cf" by (cases ?cf) (auto simp: onLoad_def)
      with inv4 px4 keept show ?thesis by simp
    next
      case None2: None
      with load run None have t': "this' = snd (setInitialVisibility sc (snd ?cf))"
        by (cases ?cf) (auto simp: onLoad_def)
      from inv4 setInitialVisibility_fields [of sc "snd ?cf"] have "resolvedInv this'"
        unfolding t' resolvedInv_def leafProxyOf_def by simp
      moreover from px4 keept setInitialVisibility_fields [of sc "snd ?cf"]
      have "\<forall>k p. proxies this k = Some p \<longrightarrow> proxies this' k = Some p"
        unfolding t' by simp
      ultimately show ?thesis by simp
    qed
  qed
qed

lemma placeholder_reads:
  assumes "placeholderProxy this p"
  shows "proxyIsPlaceholder this p" and "proxyName this p = Inr (Some [])"
    and "proxyQuery this p = Inl (Error ''Call not supported.'')"
    and "proxyFeatureCount this p = Inl (Error ''Call not supported.'')"
  using assms
  by (auto simp: placeholderProxy_def proxyIsPlaceholder_def proxyName_def proxyQuery_def
      proxyFeatureCount_def sourceFC_def newPlaceholderFC_def)

lemma leaf_reads:
  assumes "leafProxyOf this p r"
  shows "\<not> proxyIsPlaceholder this p" and "proxyName this p = Inr (fcName (fcHeap this ! r))"
    and "proxyQuery this p = Inr (queryable (fcHeap this ! r))"
    and "proxyLayerType this p = Inr (layerType (fcHeap this ! r))"
    and "proxyFeatureCount this p = Inr (featureCount (fcHeap this ! r))"
  using assms
  by (auto simp: leafProxyOf_def proxyIsPlaceholder_def proxyName_def proxyQuery_def
      proxyLayerType_def proxyFeatureCount_def sourceFC_def)

lemma leaf_reads_featureCount:
  assumes "leafProxyOf this p r" and "r < length (fcHeap this)"
  shows "proxyFeatureCount (onFeatureCount r n this) p = Inr (Some n)"
  using assms
  by (simp add: leafProxyOf_def proxyFeatureCount_def sourceFC_def onFeatureCount_def)

text \<open>
  C1. On a record as constructed, after any proxy requests, \<open>getChildProxy\<close> for
  an index returns a handle that is registered under the index, reports
  \<open>isPlaceholder\<close> and reads from a placeholder feature class (its name is the
  empty string, and a member no placeholder has, such as \<open>query\<close>, throws); when
  the index had no handle, the handle and its placeholder are new cells of the two
  stores. After any further requests the same call returns the same handle and changes
  nothing. Once the load handler has run, to its end or to an exception, and has
  created a feature class for the index, the same handle is still the one registered,
  no longer reports \<open>isPlaceholder\<close>, has that feature class as its source, and
  its name, query and feature count are read from that feature class, also after the
  feature class is updated by the callback of the feature count.
\<close>

theorem getChildProxy_placeholder_then_leaf:
  assumes sA: "sA = requestProxies idxs (newDynamicRecord les isComplete)"
    and req: "getChildProxy i sA = (p, sB)"
  shows "proxies sB (toString i) = Some p \<and>
    proxyIsPlaceholder sB p \<and>
    (\<exists>r. source (proxyHeap sB ! p) = Some r \<and> r < length (fcHeap sB) \<and>
         fcHeap sB ! r = newPlaceholderFC (Some [])) \<and>
    proxyName sB p = Inr (Some []) \<and>
    proxyQuery sB p = Inl (Error ''Call not supported.'') \<and>
    (proxies sA (toString i) = None \<longrightarrow>
       p = length (proxyHeap sA) \<and> source (proxyHeap sB ! p) = Some (length (fcHeap sA))) \<and>
    getChildProxy i (requestProxies later sB) = (p, requestProxies later sB) \<and>
    (onLoad fuel layer attribBundle (requestProxies later sB) = Some (e, sC) \<and>
     map_of (featClasses sC) (toString i) = Some r \<longrightarrow>
       getChildProxy i sC = (p, sC) \<and>
       \<not> proxyIsPlaceholder sC p \<and>
       source (proxyHeap sC ! p) = Some r \<and>
       fcClass (fcHeap sC ! r) = DynamicClass \<and>
       proxyName sC p = Inr (fcName (fcHeap sC ! r)) \<and>
       proxyQuery sC p = Inr (queryable (fcHeap sC ! r)) \<and>
       proxyFeatureCount sC p = Inr (featureCount (fcHeap sC ! r)) \<and>
       proxyFeatureCount (onFeatureCount r n sC) p = Inr (Some n))"
proof -
  have pre0: "preLoad sA" unfolding sA by (intro preLoad_requestProxies preLoad_new)
  from req have sB: "sB = snd (getChildProxy i sA)" and p: "p = fst (getChildProxy i sA)"
    by simp_all
  have pre1: "preLoad sB" unfolding sB using pre0 by (rule preLoad_getChildProxy)
  have reg: "proxies sB (toString i) = Some p"
    unfolding sB p by (rule getChildProxy_registers)
  with pre1 have ph: "placeholderProxy sB p" by (auto simp: preLoad_def)
  have fresh: "proxies sA (toString i) = None \<longrightarrow>
       p = length (proxyHeap sA) \<and> source (proxyHeap sB ! p) = Some (length (fcHeap sA))"
  proof
    assume "proxies sA (toString i) = None"
    from getChildProxy_new [OF this] req show
      "p = length (proxyHeap sA) \<and> source (proxyHeap sB ! p) = Some (length (fcHeap sA))"
      by (auto simp: convertToPlaceholder_def newLayerInterface_def)
  qed
  have pre1': "preLoad (requestProxies later sB)" using pre1 by (rule preLoad_requestProxies)
  have reg': "proxies (requestProxies later sB) (toString i) = Some p"
    using pre1 reg by (rule requestProxies_keeps)
  have again: "getChildProxy i (requestProxies later sB) = (p, requestProxies later sB)"
    using reg' by (rule getChildProxy_old)
  have loaded: "onLoad fuel layer attribBundle (requestProxies later sB) = Some (e, sC) \<and>
     map_of (featClasses sC) (toString i) = Some r \<longrightarrow>
       getChildProxy i sC = (p, sC) \<and>
       \<not> proxyIsPlaceholder sC p \<and>
       source (proxyHeap sC ! p) = Some r \<and>
       fcClass (fcHeap sC ! r) = DynamicClass \<and>
       proxyName sC p = Inr (fcName (fcHeap sC ! r)) \<and>
       proxyQuery sC p = Inr (queryable (fcHeap sC ! r)) \<and>
       proxyFeatureCount sC p = Inr (featureCount (fcHeap sC ! r)) \<and>
       proxyFeatureCount (onFeatureCount r n sC) p = Inr (Some n)"
  proof
    assume h: "onLoad fuel layer attribBundle (requestProxies later sB) = Some (e, sC) \<and>
     map_of (featClasses sC) (toString i) = Some r"
    from onLoad_resolved [OF pre1' h [THEN conjunct1]] reg'
    have inv: "resolvedInv sC" and reg2: "proxies sC (toString i) = Some p" by simp_all
    from inv h reg2 have rl: "r < length (fcHeap sC)"
      and cls: "fcClass (fcHeap sC ! r) = DynamicClass" and leaf: "leafProxyOf sC p r"
      by (auto simp: resolvedInv_def)
    from leaf have src: "source (proxyHeap sC ! p) = Some r" by (simp add: leafProxyOf_def)
    from getChildProxy_old [OF reg2] leaf_reads [OF leaf] leaf_reads_featureCount [OF leaf rl] cls src
    show "getChildProxy i sC = (p, sC) \<and>
       \<not> proxyIsPlaceholder sC p \<and>
       source (proxyHeap sC ! p) = Some r \<and>
       fcClass (fcHeap sC ! r) = DynamicClass \<and>
       proxyName sC p = Inr (fcName (fcHeap sC ! r)) \<and>
       proxyQuery sC p = Inr (queryable (fcHeap sC ! r)) \<and>
       proxyFeatureCount sC p = Inr (featureCount (fcHeap sC ! r)) \<and>
       proxyFeatureCount (onFeatureCount r n sC) p = Inr (Some n)"
      by simp
  qed
  from ph have src1: "\<exists>r. source (proxyHeap sB ! p) = Some r \<and> r < length (fcHeap sB) \<and>
         fcHeap sB ! r = newPlaceholderFC (Some [])"
    by (simp add: placeholderProxy_def)
  from reg placeholder_reads(1-3) [OF ph] src1 fresh again loaded show ?thesis
    by (intro conjI)
qed

text \<open>
  The example hierarchy with a proxy requested for index 2 before the load: the handle
  0 is a placeholder before, and after the load it is the handle of index 2, not a
  placeholder, and reads the name, the queryability and the feature count of the
  feature class created for index 2.
\<close>

theorem getChildProxy_placeholder_then_leaf_witness:
  "proxyIsPlaceholder
     (snd (getChildProxy 2
        (newDynamicRecord
           [\<lparr>index = Some 1, name = None, state = None, outfields = None,
             stateOnly = None, controls = None\<rparr>] False))) 0 \<and>
   map_option
     (\<lambda>(e, sC). (e, fst (getChildProxy 2 sC), proxyIsPlaceholder sC 0, map_of (featClasses sC) ''2'',
                 proxyName sC 0, proxyQuery sC 0, proxyFeatureCount (onFeatureCount 3 7 sC) 0))
     (onLoad 3
        \<lparr>layerInfos =
           [1 \<mapsto> \<lparr>infoId = 1, infoName = ''A'', subLayerIds = Some [2, 3]\<rparr>,
            2 \<mapsto> \<lparr>infoId = 2, infoName = ''B'', subLayerIds = None\<rparr>,
            3 \<mapsto> \<lparr>infoId = 3, infoName = ''C'', subLayerIds = Some [4]\<rparr>,
            4 \<mapsto> \<lparr>infoId = 4, infoName = ''D'', subLayerIds = None\<rparr>],
         supportsDynamicLayers = True\<rparr>
        \<lparr>indexes = [''2'', ''4''], packages = Map.empty\<rparr>
        (snd (getChildProxy 2
           (newDynamicRecord
              [\<lparr>index = Some 1, name = None, state = None, outfields = None,
                stateOnly = None, controls = None\<rparr>] False))))
   = Some (None, 0, False, Some 3, Inr (Some ''B''), Inr (Some False), Inr (Some 7))"
  using getChildProxy_placeholder_then_leaf
    [where idxs = "[]"
       and les = "[\<lparr>index = Some 1, name = None, state = None, outfields = None,
             stateOnly = None, controls = None\<rparr>]"
       and isComplete = False
       and sA = "newDynamicRecord
           [\<lparr>index = Some 1, name = None, state = None, outfields = None,
             stateOnly = None, controls = None\<rparr>] False"
       and i = 2 and p = 0
       and sB = "snd (getChildProxy 2
        (newDynamicRecord
           [\<lparr>index = Some 1, name = None, state = None, outfields = None,
             stateOnly = None, controls = None\<rparr>] False))"
       and later = "[]" and fuel = 3
       and layer = "\<lparr>layerInfos =
           [1 \<mapsto> \<lparr>infoId = 1, infoName = ''A'', subLayerIds = Some [2, 3]\<rparr>,
            2 \<mapsto> \<lparr>infoId = 2, infoName = ''B'', subLayerIds = None\<rparr>,
            3 \<mapsto> \<lparr>infoId = 3, infoName = ''C'', subLayerIds = Some [4]\<rparr>,
            4 \<mapsto> \<lparr>infoId = 4, infoName = ''D'', subLayerIds = None\<rparr>],
         supportsDynamicLayers = True\<rparr>"
       and attribBundle = "\<lparr>indexes = [''2'', ''4''], packages = Map.empty\<rparr>"
       and e = None
       and sC = "snd (the (onLoad 3
        \<lparr>layerInfos =
           [1 \<mapsto> \<lparr>infoId = 1, infoName = ''A'', subLayerIds = Some [2, 3]\<rparr>,
            2 \<mapsto> \<lparr>infoId = 2, infoName = ''B'', subLayerIds = None\<rparr>,
            3 \<mapsto> \<lparr>infoId = 3, infoName = ''C'', subLayerIds = Some [4]\<rparr>,
            4 \<mapsto> \<lparr>infoId = 4, infoName = ''D'', subLayerIds = None\<rparr>],
         supportsDynamicLayers = True\<rparr>
        \<lparr>indexes = [''2'', ''4''], packages = Map.empty\<rparr>
        (snd (getChildProxy 2
           (newDynamicRecord
              [\<lparr>index = Some 1, name = None, state = None, outfields = None,
                stateOnly = None, controls = None\<rparr>] False)))))"
       and r = 3 and n = 7]
  by (simp add: load_defs getChildProxy_def proxyIsPlaceholder_def proxyName_def proxyQuery_def
      proxyFeatureCount_def sourceFC_def onFeatureCount_def eval_nat_numeral)

end
